(* ===== verification/Prelude.thy ===== *)
theory Prelude
  imports Main "HOL-Library.Sublist"
begin

text \<open>
  Shared vocabulary of the development: the names of the model's basic types, the
  JavaScript array read (\<open>xs[i]\<close>, \<open>undefined\<close> out of range), the decimal rendering
  of counters used for message identifiers, and the generic list lemmas the component
  proofs share. The collection \<open>js_simps\<close> gathers the evaluation rules of the
  JavaScript builtins modelled in \<open>JsString\<close>; \<open>inv_simps\<close> gathers the unfolding
  rules of the invariants of the stateful components.
\<close>

named_theorems js_simps "evaluation rules of the modelled JavaScript builtins"
named_theorems inv_simps "unfolding rules of component invariants"

type_synonym js_string = string
type_synonym timestamp = nat

subsection \<open>JavaScript array reads\<close>

text \<open>
  \<open>xs[i]\<close> on a JavaScript array yields \<open>undefined\<close> beyond the end; destructuring
  \<open>const [a, b] = xs\<close> reads \<open>xs[0]\<close> and \<open>xs[1]\<close> this way. \<open>None\<close> is
  \<open>undefined\<close>.
\<close>

definition js_index :: "'a list \<Rightarrow> nat \<Rightarrow> 'a option" where
  "js_index xs i = (if i < length xs then Some (xs ! i) else None)"

subsection \<open>Decimal rendering of counters\<close>

text \<open>
  Message identifiers are strings. Where the model issues them from a counter it
  renders the counter in decimal, as \<open>String(n)\<close> does; the renderer is injective
  because reading the digits back gives the counter.
\<close>

fun dec_string :: "nat \<Rightarrow> string" where
  "dec_string n =
     (if n < 10 then [char_of (48 + n)]
      else dec_string (n div 10) @ [char_of (48 + n mod 10)])"

definition dec_value :: "string \<Rightarrow> nat" where
  "dec_value s = foldl (\<lambda>acc c. 10 * acc + (of_char c - 48)) 0 s"

subsection \<open>Lemmas\<close>

lemma js_index_Cons_0 [simp, js_simps]: "js_index (x # xs) 0 = Some x"
  by (simp add: js_index_def)

lemma js_index_Cons_Suc [simp, js_simps]: "js_index (x # xs) (Suc i) = js_index xs i"
  by (simp add: js_index_def)

lemma js_index_Nil [simp, js_simps]: "js_index [] i = None"
  by (simp add: js_index_def)

lemma js_index_one [js_simps]: "js_index (x # xs) 1 = js_index xs 0"
  by (simp add: js_index_def)

declare dec_string.simps [simp del]

lemma of_char_digit: "(d::nat) < 10 \<Longrightarrow> of_char (char_of (48 + d) :: char) = 48 + d"
  by (simp add: of_char_of)

lemma dec_value_snoc: "dec_value (s @ [c]) = 10 * dec_value s + (of_char c - 48)"
  by (simp add: dec_value_def)

lemma dec_value_dec_string [simp]: "dec_value (dec_string n) = n"
proof (induction n rule: dec_string.induct)
  case (1 n)
  show ?case
  proof (cases "n < 10")
    case True
    then show ?thesis
      by (simp add: dec_string.simps [of n] dec_value_def of_char_digit)
  next
    case False
    then have "dec_value (dec_string n)
        = 10 * dec_value (dec_string (n div 10)) + n mod 10"
      by (simp add: dec_string.simps [of n] dec_value_snoc of_char_digit)
    with "1.IH" False show ?thesis by simp
  qed
qed

lemma dec_string_inj [simp]: "dec_string m = dec_string n \<longleftrightarrow> m = n"
  by (metis dec_value_dec_string)

lemma dec_string_nonempty [simp]: "dec_string n \<noteq> []"
  by (subst dec_string.simps) simp

subsection \<open>Lists\<close>

lemma distinct_snoc_iff [simp]: "distinct (xs @ [x]) \<longleftrightarrow> distinct xs \<and> x \<notin> set xs"
  by auto

lemma sorted_snoc_iff: "sorted (xs @ [x]) \<longleftrightarrow> sorted xs \<and> (\<forall>y \<in> set xs. y \<le> x)"
  by (auto simp: sorted_append)

lemma prefix_snoc_self [intro, simp]: "prefix xs (xs @ [x])"
  by simp

lemma nth_snoc_last [simp]: "(xs @ [x]) ! length xs = x"
  by simp

end
