(* ===== verification/JsString.thy ===== *)
theory JsString
  imports Prelude
begin

text \<open>
  The JavaScript string builtins the sources call, over \<open>string\<close> (characters are the
  8-bit \<open>char\<close> of HOL; the code points above 255 of a UTF-16 string are not
  represented). Each is defined by structural recursion, so it evaluates by \<open>simp\<close>:
  \<^item> \<open>js_split c s\<close> is \<open>s.split(c)\<close> for a one-character separator, and
    \<open>js_join c xs\<close> is \<open>xs.join(c)\<close>;
  \<^item> \<open>js_trim s\<close> is \<open>s.trim()\<close>, with ECMAScript's white space and line terminators;
  \<^item> \<open>js_starts_with s p\<close> is \<open>s.startsWith(p)\<close>;
  \<^item> \<open>regex_colon_lazy_semi s\<close> is group 1 of \<open>s.match(/:(.*?);/)\<close>, \<open>None\<close> when
    the match is \<open>null\<close>.
  The lemmas show that \<open>split\<close> is the unique decomposition into separator-free
  segments (so it round-trips with \<open>join\<close>), count its segments, give the meaning of
  a blank \<open>trim\<close>, and characterise exactly what the regular expression captures,
  with its value on a data-URL header.
\<close>

subsection \<open>String.prototype.split with a one-character separator\<close>

fun js_split :: "char \<Rightarrow> string \<Rightarrow> string list" where
  "js_split c [] = [[]]"
| "js_split c (x # xs) =
     (if x = c then [] # js_split c xs
      else (let r = js_split c xs in (x # hd r) # tl r))"

text \<open>\<open>Array.prototype.join\<close> with a one-character separator.\<close>

fun js_join :: "char \<Rightarrow> string list \<Rightarrow> string" where
  "js_join c [] = []"
| "js_join c [x] = x"
| "js_join c (x # y # ys) = x @ c # js_join c (y # ys)"

subsection \<open>String.prototype.trim\<close>

text \<open>
  ECMAScript white space in the 8-bit range: TAB, VT, FF, SP and NBSP (0xA0); line
  terminators: LF and CR. \<open>trim\<close> removes both from both ends.
\<close>

definition js_line_terminator :: "char \<Rightarrow> bool" where
  "js_line_terminator c \<longleftrightarrow> of_char c = (10::nat) \<or> of_char c = (13::nat)"

definition js_whitespace :: "char \<Rightarrow> bool" where
  "js_whitespace c \<longleftrightarrow>
     js_line_terminator c \<or> of_char c \<in> {9, 11, 12, 32, 160::nat}"

definition js_trim :: "string \<Rightarrow> string" where
  "js_trim s = rev (dropWhile js_whitespace (rev (dropWhile js_whitespace s)))"

subsection \<open>String.prototype.startsWith\<close>

definition js_starts_with :: "string \<Rightarrow> string \<Rightarrow> bool" where
  "js_starts_with s p \<longleftrightarrow> take (length p) s = p"

subsection \<open>The regular expression /:(.*?);/\<close>

text \<open>
  \<open>exec\<close> tries each start position from the left. At a colon, the lazy \<open>.*?\<close>
  first tries to finish with \<open>;\<close> and otherwise consumes one character, which
  \<open>.\<close> accepts unless it is a line terminator; when that fails the next start
  position is tried. Group 1 is what \<open>.*?\<close> consumed.
\<close>

fun scan_lazy_semi :: "string \<Rightarrow> string option" where
  "scan_lazy_semi [] = None"
| "scan_lazy_semi (c # cs) =
     (if c = CHR '';'' then Some []
      else if js_line_terminator c then None
      else map_option (Cons c) (scan_lazy_semi cs))"

fun regex_colon_lazy_semi :: "string \<Rightarrow> string option" where
  "regex_colon_lazy_semi [] = None"
| "regex_colon_lazy_semi (c # cs) =
     (if c = CHR '':''
      then (case scan_lazy_semi cs of
              Some g \<Rightarrow> Some g
            | None \<Rightarrow> regex_colon_lazy_semi cs)
      else regex_colon_lazy_semi cs)"

definition regex_group_clean :: "string \<Rightarrow> bool" where
  "regex_group_clean g \<longleftrightarrow> CHR '';'' \<notin> set g \<and> (\<forall>c \<in> set g. \<not> js_line_terminator c)"

text \<open>
  No colon of \<open>p\<close> starts a match of \<open>/:(.*?);/\<close> within \<open>p\<close>: after each
  colon a line terminator comes before any semicolon.
\<close>

abbreviation colons_blocked :: "string \<Rightarrow> bool" where
  "colons_blocked p \<equiv>
     \<forall>a b. p = a @ CHR '':'' # b \<longrightarrow>
       (\<exists>u v w. b = u @ v # w \<and> js_line_terminator v \<and> CHR '';'' \<notin> set u)"

subsection \<open>Lemmas\<close>

lemma js_split_nonempty [simp]: "js_split c s \<noteq> []"
  by (induction s) (auto simp: Let_def)

lemma js_split_no_sep [js_simps]: "c \<notin> set s \<Longrightarrow> js_split c s = [s]"
  by (induction s) auto

lemma js_split_append_sep [js_simps]:
  "c \<notin> set s \<Longrightarrow> js_split c (s @ c # t) = s # js_split c t"
  by (induction s) (auto simp: Let_def)

lemma js_split_join: "js_join c (js_split c s) = s"
proof (induction s)
  case Nil
  then show ?case by simp
next
  case (Cons x xs)
  obtain r rs where r: "js_split c xs = r # rs"
    by (cases "js_split c xs") auto
  with Cons show ?case
    by (cases rs) (auto simp: Let_def)
qed

lemma js_split_segments: "w \<in> set (js_split c s) \<Longrightarrow> c \<notin> set w"
proof (induction s arbitrary: w)
  case Nil
  then show ?case by simp
next
  case (Cons x xs)
  obtain r rs where r: "js_split c xs = r # rs"
    by (cases "js_split c xs") auto
  with Cons show ?case
    by (auto simp: Let_def split: if_splits)
qed

lemma js_split_js_join:
  "xs \<noteq> [] \<Longrightarrow> list_all (\<lambda>w. c \<notin> set w) xs \<Longrightarrow> js_split c (js_join c xs) = xs"
  by (induction c xs rule: js_join.induct) (simp_all add: js_split_no_sep js_split_append_sep)

text \<open>
  C35. \<open>s.split(c)\<close> is the one decomposition of \<open>s\<close> into segments free of
  \<open>c\<close>: a non-empty list of strings without \<open>c\<close> whose join with \<open>c\<close> is
  \<open>s\<close> is exactly the result of \<open>split\<close>. So \<open>split\<close> loses nothing and cuts at
  every occurrence of the separator.
\<close>

theorem js_split_unique:
  "(xs \<noteq> [] \<and> js_join c xs = s \<and> list_all (\<lambda>w. c \<notin> set w) xs) \<longleftrightarrow> xs = js_split c s"
  by (auto simp: js_split_js_join js_split_join list_all_iff dest: js_split_segments)

theorem js_split_unique_witness: "js_split CHR '','' ''data:x;base64,AAAA'' = [''data:x;base64'', ''AAAA'']"
  using js_split_unique [of "[''data:x;base64'', ''AAAA'']" "CHR '',''" "''data:x;base64,AAAA''"]
  by simp

text \<open>
  C36. \<open>s.split(c)\<close> has one segment more than \<open>s\<close> has occurrences of \<open>c\<close>;
  so destructuring \<open>[header, data]\<close> reads a defined \<open>data\<close> exactly when the
  string holds a comma.
\<close>

theorem js_split_length: "length (js_split c s) = Suc (count_list s c)"
proof (induction s)
  case Nil
  then show ?case by simp
next
  case (Cons x xs)
  obtain r rs where "js_split c xs = r # rs"
    by (cases "js_split c xs") auto
  with Cons show ?case by (auto simp: Let_def)
qed

lemma dropWhile_eq_Nil_iff': "dropWhile P xs = [] \<longleftrightarrow> (\<forall>x \<in> set xs. P x)"
  by (induction xs) auto

lemma js_trim_blank_iff [js_simps]:
  "js_trim s = [] \<longleftrightarrow> (\<forall>c \<in> set s. js_whitespace c)"
proof -
  have "js_trim s = [] \<longleftrightarrow> dropWhile js_whitespace (rev (dropWhile js_whitespace s)) = []"
    by (simp add: js_trim_def)
  also have "\<dots> \<longleftrightarrow> (\<forall>c \<in> set (dropWhile js_whitespace s). js_whitespace c)"
    by (simp add: dropWhile_eq_Nil_iff')
  also have "\<dots> \<longleftrightarrow> (\<forall>c \<in> set s. js_whitespace c)"
    by (induction s) auto
  finally show ?thesis .
qed

lemma js_trim_nonblank_nonempty: "js_trim s \<noteq> [] \<Longrightarrow> s \<noteq> []"
  by (auto simp: js_trim_blank_iff)

lemma js_starts_with_append [js_simps]: "js_starts_with (p @ t) p"
  by (simp add: js_starts_with_def)

lemma js_starts_with_prefix: "js_starts_with s p \<longleftrightarrow> prefix p s"
  by (metis append_take_drop_id js_starts_with_def prefix_def take_append
      append_eq_conv_conj)

lemma scan_lazy_semi_exact:
  "regex_group_clean g \<Longrightarrow> scan_lazy_semi (g @ CHR '';'' # t) = Some g"
  by (induction g) (auto simp: regex_group_clean_def)

lemma scan_lazy_semi_Some:
  "scan_lazy_semi s = Some g \<Longrightarrow> \<exists>t. s = g @ CHR '';'' # t \<and> regex_group_clean g"
  by (induction s arbitrary: g) (auto simp: regex_group_clean_def split: if_splits)

lemma scan_lazy_semi_blocked:
  "CHR '';'' \<notin> set u \<Longrightarrow> js_line_terminator v \<Longrightarrow> scan_lazy_semi (u @ v # w) = None"
  by (induction u) (auto simp: js_line_terminator_def)

lemma scan_lazy_semi_None_blocked:
  assumes "scan_lazy_semi (p @ CHR '':'' # g @ CHR '';'' # t) = None" and "regex_group_clean g"
  shows "\<exists>u v w. p = u @ v # w \<and> js_line_terminator v \<and> CHR '';'' \<notin> set u"
  using assms
proof (induction p)
  case Nil
  then show ?case by (simp add: scan_lazy_semi_exact js_line_terminator_def)
next
  case (Cons x p)
  show ?case
  proof (cases "js_line_terminator x")
    case True
    then show ?thesis by (metis append_Nil empty_iff list.set(1))
  next
    case False
    with Cons.prems have "x \<noteq> CHR '';''" "scan_lazy_semi (p @ CHR '':'' # g @ CHR '';'' # t) = None"
      by (auto split: if_splits)
    with Cons.IH Cons.prems(2) obtain u v w where "p = u @ v # w" "js_line_terminator v" "CHR '';'' \<notin> set u"
      by blast
    with \<open>x \<noteq> CHR '';''\<close> show ?thesis by (metis append_Cons set_ConsD)
  qed
qed

lemma colons_blocked_tl: "colons_blocked (x # p) \<Longrightarrow> colons_blocked p"
  by (metis append_Cons)

lemma colons_blocked_hd:
  "colons_blocked (CHR '':'' # p) \<Longrightarrow>
     \<exists>u v w. p = u @ v # w \<and> js_line_terminator v \<and> CHR '';'' \<notin> set u"
  by (metis append_Nil)

lemma colons_blocked_Cons:
  assumes "colons_blocked p"
    and "x = CHR '':'' \<Longrightarrow> \<exists>u v w. p = u @ v # w \<and> js_line_terminator v \<and> CHR '';'' \<notin> set u"
  shows "colons_blocked (x # p)"
proof (intro allI impI)
  fix a b assume "x # p = a @ CHR '':'' # b"
  with assms show "\<exists>u v w. b = u @ v # w \<and> js_line_terminator v \<and> CHR '';'' \<notin> set u"
    by (cases a) auto
qed

text \<open>
  C37. What \<open>s.match(/:(.*?);/)\<close> captures, exactly: group \<open>g\<close> is returned
  if and only if \<open>s\<close> is \<open>p:g;t\<close> with \<open>g\<close> free of semicolons and line
  terminators (lazy \<open>.*?\<close> stops at the first semicolon, \<open>.\<close> refuses line
  terminators) and no colon of \<open>p\<close> starts a match (leftmost: after each colon of
  \<open>p\<close> a line terminator comes before any semicolon).
\<close>

theorem regex_colon_lazy_semi_leftmost:
  "regex_colon_lazy_semi s = Some g \<longleftrightarrow>
     (\<exists>p t. s = p @ CHR '':'' # g @ CHR '';'' # t \<and> regex_group_clean g \<and> colons_blocked p)"
proof (induction s)
  case Nil
  then show ?case by simp
next
  case (Cons c cs)
  show ?case
  proof (cases "c = CHR '':''")
    case colon: True
    show ?thesis
    proof (cases "scan_lazy_semi cs")
      case (Some g')
      then obtain t' where cs: "cs = g' @ CHR '';'' # t'" and cl: "regex_group_clean g'"
        using scan_lazy_semi_Some by blast
      show ?thesis
      proof
        assume "regex_colon_lazy_semi (c # cs) = Some g"
        with colon Some have "g = g'" by simp
        with colon cs cl show "\<exists>p t. c # cs = p @ CHR '':'' # g @ CHR '';'' # t \<and>
            regex_group_clean g \<and> colons_blocked p"
          by (intro exI [of _ "[]"] exI [of _ t']) simp
      next
        assume "\<exists>p t. c # cs = p @ CHR '':'' # g @ CHR '';'' # t \<and> regex_group_clean g \<and> colons_blocked p"
        then obtain p t where s: "c # cs = p @ CHR '':'' # g @ CHR '';'' # t"
          and clg: "regex_group_clean g" and bl: "colons_blocked p" by blast
        show "regex_colon_lazy_semi (c # cs) = Some g"
        proof (cases p)
          case Nil
          with s have "cs = g @ CHR '';'' # t" by simp
          with clg have "scan_lazy_semi cs = Some g" by (simp add: scan_lazy_semi_exact)
          with colon show ?thesis by simp
        next
          case (Cons x p')
          with s colon have p: "p = CHR '':'' # p'" and cs': "cs = p' @ CHR '':'' # g @ CHR '';'' # t"
            by simp_all
          from bl p obtain u v w where "p' = u @ v # w" "js_line_terminator v" "CHR '';'' \<notin> set u"
            using colons_blocked_hd by blast
          with cs' have "scan_lazy_semi cs = None" by (simp add: scan_lazy_semi_blocked)
          with Some show ?thesis by simp
        qed
      qed
    next
      case None
      with colon have r: "regex_colon_lazy_semi (c # cs) = regex_colon_lazy_semi cs" by simp
      show ?thesis
      proof
        assume "regex_colon_lazy_semi (c # cs) = Some g"
        with r Cons.IH obtain p t where cs: "cs = p @ CHR '':'' # g @ CHR '';'' # t"
          and clg: "regex_group_clean g" and bl: "colons_blocked p" by auto
        from None cs clg have "\<exists>u v w. p = u @ v # w \<and> js_line_terminator v \<and> CHR '';'' \<notin> set u"
          using scan_lazy_semi_None_blocked by simp
        with bl have "colons_blocked (c # p)" by (rule colons_blocked_Cons)
        with cs clg show "\<exists>p t. c # cs = p @ CHR '':'' # g @ CHR '';'' # t \<and>
            regex_group_clean g \<and> colons_blocked p"
          by (intro exI [of _ "c # p"] exI [of _ t]) simp
      next
        assume "\<exists>p t. c # cs = p @ CHR '':'' # g @ CHR '';'' # t \<and> regex_group_clean g \<and> colons_blocked p"
        then obtain p t where s: "c # cs = p @ CHR '':'' # g @ CHR '';'' # t"
          and clg: "regex_group_clean g" and bl: "colons_blocked p" by blast
        show "regex_colon_lazy_semi (c # cs) = Some g"
        proof (cases p)
          case Nil
          with s clg have "scan_lazy_semi cs = Some g" by (simp add: scan_lazy_semi_exact)
          with None show ?thesis by simp
        next
          case (Cons x p')
          with s bl have "cs = p' @ CHR '':'' # g @ CHR '';'' # t" "colons_blocked p'"
            by (simp_all add: colons_blocked_tl)
          then have "regex_colon_lazy_semi cs = Some g" using clg Cons.IH by blast
          with r show ?thesis by simp
        qed
      qed
    qed
  next
    case False
    then have r: "regex_colon_lazy_semi (c # cs) = regex_colon_lazy_semi cs" by simp
    show ?thesis
    proof
      assume "regex_colon_lazy_semi (c # cs) = Some g"
      with r Cons.IH obtain p t where "cs = p @ CHR '':'' # g @ CHR '';'' # t"
        and "regex_group_clean g" and "colons_blocked p" by auto
      moreover from \<open>colons_blocked p\<close> False have "colons_blocked (c # p)"
        by (intro colons_blocked_Cons) simp_all
      ultimately show "\<exists>p t. c # cs = p @ CHR '':'' # g @ CHR '';'' # t \<and>
          regex_group_clean g \<and> colons_blocked p"
        by (intro exI [of _ "c # p"] exI [of _ t]) simp
    next
      assume "\<exists>p t. c # cs = p @ CHR '':'' # g @ CHR '';'' # t \<and> regex_group_clean g \<and> colons_blocked p"
      then obtain p t where s: "c # cs = p @ CHR '':'' # g @ CHR '';'' # t"
        and clg: "regex_group_clean g" and bl: "colons_blocked p" by blast
      with False obtain p' where "p = c # p'" by (cases p) auto
      with s bl have "cs = p' @ CHR '':'' # g @ CHR '';'' # t" "colons_blocked p'"
        by (simp_all add: colons_blocked_tl)
      then have "regex_colon_lazy_semi cs = Some g" using clg Cons.IH by blast
      with r show "regex_colon_lazy_semi (c # cs) = Some g" by simp
    qed
  qed
qed

theorem regex_colon_lazy_semi_leftmost_witness:
  "regex_colon_lazy_semi (''a:b'' @ CHR 0x0A # '':c;'') = Some ''c''"
proof -
  have bl: "colons_blocked (''a:b'' @ [CHR 0x0A])"
  proof (intro allI impI)
    fix a b assume "''a:b'' @ [CHR 0x0A] = a @ CHR '':'' # b"
    then have "b = ''b'' @ [CHR 0x0A]" by (auto simp: Cons_eq_append_conv)
    then show "\<exists>u v w. b = u @ v # w \<and> js_line_terminator v \<and> CHR '';'' \<notin> set u"
      by (intro exI [of _ "''b''"] exI [of _ "CHR 0x0A"] exI [of _ "[]"])
         (simp add: js_line_terminator_def)
  qed
  have cl: "regex_group_clean ''c''" by (simp add: regex_group_clean_def js_line_terminator_def)
  have eq: "''a:b'' @ CHR 0x0A # '':c;'' = (''a:b'' @ [CHR 0x0A]) @ CHR '':'' # ''c'' @ CHR '';'' # []"
    by simp
  show ?thesis
    by (rule regex_colon_lazy_semi_leftmost [THEN iffD2], rule exI, rule exI, intro conjI,
        rule eq, rule cl, rule bl)
qed

text \<open>
  On a string whose first colon opens a clean group closed by a semicolon, the match is
  exactly that group: the case of a data-URL header \<open>data:<type>;base64\<close>.
\<close>

lemma regex_colon_lazy_semi_first_colon [js_simps]:
  "CHR '':'' \<notin> set p \<Longrightarrow> regex_group_clean g \<Longrightarrow>
     regex_colon_lazy_semi (p @ CHR '':'' # g @ CHR '';'' # t) = Some g"
  by (induction p) (auto simp: scan_lazy_semi_exact)

end
