(* ===== verification/Model_Types.thy ===== *)
theory Model_Types
  imports JsString
begin

text \<open>
  The data model of \<open>src/types.ts\<close> and the fixed settings of \<open>src/constants.ts\<close>.
  \<^item> \<open>Message\<close> is the record \<open>message\<close>; its optional \<open>image\<close> (a data URL kept
    for display) is a \<open>string option\<close>.
  \<^item> \<open>ImageData\<close> is \<open>image_data\<close>. Its \<open>base64\<close> field is typed \<open>string\<close> in
    TypeScript but is filled with \<open>dataUrl.split(',')[1]\<close>, which is \<open>undefined\<close>
    when the URL has no comma; the model keeps that value as \<open>string option\<close>.
  \<^item> \<open>UserParams\<close> is \<open>user_params\<close>.
  \<^item> \<open>HistoryItem\<close> (and the SDK's \<open>Content\<close>, which has the same shape) is
    \<open>history_item\<close>. The source builds each part as an object with exactly one of
    the keys \<open>text\<close> and \<open>inlineData\<close>; the model makes that a datatype \<open>part\<close>.
    The \<open>data\<close> of an inline part may be \<open>undefined\<close> (see \<open>Gemini\<close>).
  Record fields carry the record's name as a prefix, since \<open>id\<close>, \<open>text\<close> and
  \<open>role\<close> are taken in HOL or in this development.
\<close>

datatype role = User | Model

record message =
  message_id :: string
  message_role :: role
  message_text :: string
  message_image :: "string option"
  message_timestamp :: timestamp

record image_data =
  image_base64 :: "string option"
  image_preview :: string
  image_mime_type :: string

record user_params =
  params_text :: string
  params_image :: "image_data option"

datatype part =
    TextPart string
  | InlineDataPart string "string option"

record history_item =
  item_role :: role
  item_parts :: "part list"

subsection \<open>Constants\<close>

definition MODEL_ID :: string where
  "MODEL_ID = ''gemini-3-pro-preview''"

definition SYSTEM_INSTRUCTION :: string where
  \<open>SYSTEM_INSTRUCTION =
     ''\<newline>'' @
     ''You are a compassionate, Socratic AI math tutor. Your goal is to help the user understand complex calculus, algebra, and other math concepts deeply, not just to provide answers.'' @
     ''\<newline>'' @
     ''\<newline>'' @
     ''CORE BEHAVIORS:'' @
     ''\<newline>'' @
     ''1.  **Never give the final answer immediately.** Even if asked directly, explain that you will walk them through it to ensure understanding.'' @
     ''\<newline>'' @
     ''2.  **Socratic Method:** Ask guiding questions. Start by asking the user what they think the first step is.'' @
     ''\<newline>'' @
     ''3.  **Step-by-Step:** Break down complex problems into small, manageable logical steps. Verify understanding of the current step before moving to the next.'' @
     ''\<newline>'' @
     ''4.  **Visual Analysis:** If the user uploads an image, analyze it carefully to identify the math problem. State clearly what you see (e.g., "I see a quadratic equation..." or "This looks like an integration by parts problem...").'' @
     ''\<newline>'' @
     ''5.  **"Why" Support:** If the user asks "Why?", "Why did we do that?", or seems confused, stop the process. Explain the specific underlying mathematical concept, theorem, or rule being applied. Use analogies if helpful.'' @
     ''\<newline>'' @
     ''6.  **Tone:** Be patient, encouraging, and kind. Use phrases like "That's a great start," "Close, but let's look at this part," or "Take your time."'' @
     ''\<newline>'' @
     ''7.  **Thinking:** Use your thinking capabilities to verify your own math logic before responding to ensure accuracy.'' @
     ''\<newline>'' @
     ''\<newline>'' @
     ''FORMATTING:'' @
     ''\<newline>'' @
     ''- Use Markdown for bolding key terms.'' @
     ''\<newline>'' @
     ''- Use clear spacing between steps.'' @
     ''\<newline>'' @
     ''- If writing equations, use standard clean text or simple LaTeX-like formatting that is easy to read (e.g., x^2, integral(f(x) dx)).'' @
     ''\<newline>'' @
     ''\<newline>'' @
     ''SCENARIO:'' @
     ''\<newline>'' @
     ''User: [Uploads image of an integral]'' @
     ''\<newline>'' @
     ''You: "I see you're working on an indefinite integral involving a trigonometric function. It looks like a substitution might be needed here. What do you think would be a good choice for 'u'?"'' @
     ''\<newline>''\<close>

end
