(* ===== verification/Gemini.thy ===== *)
theory Gemini
  imports Model_Types
begin

text \<open>
  \<open>src/services/gemini.ts\<close>: the Request Builder (\<open>formatHistory\<close> and the new
  user turn of \<open>generateResponse\<close>) and the Model Client (\<open>generateResponse\<close>).
  The network call \<open>ai.models.generateContent\<close> is the one thing not modelled: it is a
  parameter \<open>provider\<close> of type \<open>generate_request \<Rightarrow> provider_response\<close>, so every
  lemma about \<open>generateResponse\<close> holds for every behaviour of the provider. A response
  is either a failure (the SDK's promise rejects) or a success whose \<open>text\<close> accessor is
  a string or \<open>undefined\<close>.
\<close>

subsection \<open>Data URLs\<close>

text \<open>
  The form \<open>FileReader.readAsDataURL\<close> produces and \<open>Message.image\<close> stores:
  \<open>data:<media type>;base64,<payload>\<close>. A media type is well formed here when it holds
  no comma, colon, semicolon or line terminator.
\<close>

definition data_url :: "string \<Rightarrow> string \<Rightarrow> string" where
  "data_url mime payload = ''data:'' @ mime @ '';base64,'' @ payload"

definition media_type_ok :: "string \<Rightarrow> bool" where
  "media_type_ok t \<longleftrightarrow> CHR '','' \<notin> set t \<and> CHR '':'' \<notin> set t \<and> regex_group_clean t"

subsection \<open>formatHistory\<close>

text \<open>
  Lines 27--28: \<open>const [header, base64Data] = msg.image.split(',')\<close> and
  \<open>header.match(/:(.*?);/)?.[1] || 'image/jpeg'\<close>. An empty group is falsy, so it
  also falls back to \<open>image/jpeg\<close>.
\<close>

definition mime_of_header :: "string \<Rightarrow> string" where
  "mime_of_header header =
     (case regex_colon_lazy_semi header of
        Some m \<Rightarrow> if m \<noteq> [] then m else ''image/jpeg''
      | None \<Rightarrow> ''image/jpeg'')"

definition image_part_of_data_url :: "string \<Rightarrow> part" where
  "image_part_of_data_url img =
     (let segs = js_split CHR '','' img;
          header = hd segs;
          base64Data = js_index segs 1
      in InlineDataPart (mime_of_header header) base64Data)"

text \<open>
  The arrow function mapped over the history (lines 12--41): a text part when
  \<open>msg.text\<close> is truthy (non-empty), then an image part when \<open>msg.image\<close> is truthy.
\<close>

definition format_message :: "message \<Rightarrow> history_item" where
  "format_message msg =
     \<lparr>item_role = message_role msg,
      item_parts =
        (if message_text msg \<noteq> [] then [TextPart (message_text msg)] else []) @
        (case message_image msg of
           Some img \<Rightarrow> if img \<noteq> [] then [image_part_of_data_url img] else []
         | None \<Rightarrow> [])\<rparr>"

definition formatHistory :: "message list \<Rightarrow> history_item list" where
  "formatHistory messages = map format_message messages"

subsection \<open>The new user turn and the request\<close>

text \<open>
  Lines 63--83: the image part first, with the media type fixed to \<open>image/jpeg\<close>,
  when \<open>newImageBase64\<close> is truthy; then the text part when \<open>newText\<close> is truthy.
\<close>

definition new_parts :: "string \<Rightarrow> string option \<Rightarrow> part list" where
  "new_parts newText newImageBase64 =
     (case newImageBase64 of
        Some b \<Rightarrow> if b \<noteq> [] then [InlineDataPart ''image/jpeg'' (Some b)] else []
      | None \<Rightarrow> []) @
     (if newText \<noteq> [] then [TextPart newText] else [])"

definition new_content :: "string \<Rightarrow> string option \<Rightarrow> history_item" where
  "new_content newText newImageBase64 =
     \<lparr>item_role = User, item_parts = new_parts newText newImageBase64\<rparr>"

text \<open>
  The argument of \<open>ai.models.generateContent\<close> (lines 88--98): the model, the whole
  conversation, and a configuration with the system instruction, a thinking budget of
  32768 and no \<open>maxOutputTokens\<close> (\<open>None\<close>).
\<close>

record generate_request =
  req_model :: string
  req_contents :: "history_item list"
  req_system_instruction :: string
  req_thinking_budget :: nat
  req_max_output_tokens :: "nat option"

definition THINKING_BUDGET :: nat where
  "THINKING_BUDGET = 32768"

definition build_request :: "message list \<Rightarrow> string \<Rightarrow> string option \<Rightarrow> generate_request" where
  "build_request currentHistory newText newImageBase64 =
     \<lparr>req_model = MODEL_ID,
      req_contents = formatHistory currentHistory @ [new_content newText newImageBase64],
      req_system_instruction = SYSTEM_INSTRUCTION,
      req_thinking_budget = THINKING_BUDGET,
      req_max_output_tokens = None\<rparr>"

subsection \<open>generateResponse\<close>

datatype provider_response =
    ProviderFailure string
  | ProviderSuccess "string option"

datatype gen_error = ModelInvocationError string

definition FALLBACK_REPLY :: string where
  "FALLBACK_REPLY = ''I'm sorry, I couldn't generate a response. Please try again.''"

text \<open>
  Line 100: \<open>response.text || fallback\<close>; lines 102--105: the catch logs the error and
  rethrows it unchanged.
\<close>

fun normalize_response :: "provider_response \<Rightarrow> gen_error + string" where
  "normalize_response (ProviderFailure e) = Inl (ModelInvocationError e)"
| "normalize_response (ProviderSuccess t) =
     Inr (case t of Some s \<Rightarrow> if s \<noteq> [] then s else FALLBACK_REPLY | None \<Rightarrow> FALLBACK_REPLY)"

definition generateResponse ::
  "(generate_request \<Rightarrow> provider_response) \<Rightarrow> message list \<Rightarrow> string \<Rightarrow> string option
     \<Rightarrow> gen_error + string" where
  "generateResponse provider currentHistory newText newImageBase64 =
     normalize_response (provider (build_request currentHistory newText newImageBase64))"

subsection \<open>Well-formed wire shape\<close>

text \<open>
  A part is well formed when its content key is not empty: a text part with non-empty
  text, an inline part with a non-empty media type (its data may still be
  \<open>undefined\<close>, see C9).
\<close>

fun part_wf :: "part \<Rightarrow> bool" where
  "part_wf (TextPart t) = (t \<noteq> [])"
| "part_wf (InlineDataPart mt d) = (mt \<noteq> [])"

definition request_parts_wf :: "generate_request \<Rightarrow> bool" where
  "request_parts_wf r \<longleftrightarrow> list_all (\<lambda>it. list_all part_wf (item_parts it)) (req_contents r)"

subsection \<open>Lemmas: data URLs and image parts\<close>

lemma data_url_split:
  assumes "media_type_ok t" and "CHR '','' \<notin> set b"
  shows "js_split CHR '','' (data_url t b) = [''data:'' @ t @ '';base64'', b]"
proof -
  have url: "data_url t b = (''data:'' @ t @ '';base64'') @ CHR '','' # b"
    by (simp add: data_url_def)
  have hd: "CHR '','' \<notin> set (''data:'' @ t @ '';base64'')"
    using assms(1) by (simp add: media_type_ok_def)
  show ?thesis
    by (simp only: url js_split_append_sep [OF hd] js_split_no_sep [OF assms(2)])
qed

lemma data_url_header_split:
  "''data:'' @ t @ '';base64'' = ''data'' @ CHR '':'' # t @ CHR '';'' # ''base64''"
  by simp

lemma mime_of_header_data_url [js_simps]:
  assumes "media_type_ok t" and "t \<noteq> []"
  shows "mime_of_header (''data:'' @ t @ '';base64'') = t"
proof -
  have clean: "regex_group_clean t" and colon: "CHR '':'' \<notin> set ''data''"
    using assms(1) by (simp_all add: media_type_ok_def)
  have "regex_colon_lazy_semi (''data:'' @ t @ '';base64'') = Some t"
    by (simp only: data_url_header_split regex_colon_lazy_semi_first_colon [OF colon clean])
  with assms(2) show ?thesis by (simp add: mime_of_header_def)
qed

lemma image_part_of_data_url_exact [js_simps]:
  assumes "media_type_ok t" and "t \<noteq> []" and "CHR '','' \<notin> set b"
  shows "image_part_of_data_url (data_url t b) = InlineDataPart t (Some b)"
proof -
  have segs: "js_split CHR '','' (data_url t b) = [''data:'' @ t @ '';base64'', b]"
    using assms(1,3) by (rule data_url_split)
  have mime: "mime_of_header (''data:'' @ t @ '';base64'') = t"
    using assms(1,2) by (rule mime_of_header_data_url)
  show ?thesis
    unfolding image_part_of_data_url_def Let_def segs list.sel(1) mime
    by (simp add: js_index_def)
qed

lemma data_url_nonempty [simp]: "data_url t b \<noteq> []"
  by (simp add: data_url_def)

lemma format_message_role [simp]: "item_role (format_message m) = message_role m"
  by (simp add: format_message_def)

lemma length_formatHistory [simp]: "length (formatHistory ms) = length ms"
  by (simp add: formatHistory_def)

lemma formatHistory_append [simp]:
  "formatHistory (ms @ ms') = formatHistory ms @ formatHistory ms'"
  by (simp add: formatHistory_def)

lemma FALLBACK_REPLY_nonempty [simp]: "FALLBACK_REPLY \<noteq> []"
  by (simp add: FALLBACK_REPLY_def)

lemma normalize_response_nonempty: "normalize_response r = Inr txt \<Longrightarrow> txt \<noteq> []"
  by (cases r) (auto split: option.splits if_splits)

lemma normalize_response_Inl:
  "normalize_response r = Inl e \<longleftrightarrow> (\<exists>c. r = ProviderFailure c \<and> e = ModelInvocationError c)"
  by (cases r) auto

lemmas request_defs = build_request_def new_content_def THINKING_BUDGET_def

subsection \<open>Properties of the Request Builder\<close>

text \<open>
  C1. A stored image that is a data URL \<open>data:<t>;base64,<b>\<close> (well-formed,
  non-empty media type \<open>t\<close>, payload \<open>b\<close> without commas) on a message without text
  is projected to exactly one inline part carrying \<open>t\<close> and \<open>b\<close>: splitting the
  reference recovers what the codec joined.
\<close>

theorem format_message_image_roundtrip:
  assumes "message_text m = []" and "message_image m = Some (data_url t b)"
    and "media_type_ok t" and "t \<noteq> []" and "CHR '','' \<notin> set b"
  shows "item_parts (format_message m) = [InlineDataPart t (Some b)]"
  using assms by (simp add: format_message_def image_part_of_data_url_exact)

theorem format_message_image_roundtrip_witness:
  "item_parts (format_message
     \<lparr>message_id = ''1'', message_role = User, message_text = [],
      message_image = Some (data_url ''image/png'' ''iVBORw0K''), message_timestamp = 0\<rparr>)
   = [InlineDataPart ''image/png'' (Some ''iVBORw0K'')]"
  by (rule format_message_image_roundtrip)
    (simp_all add: media_type_ok_def regex_group_clean_def js_line_terminator_def)

text \<open>
  C2. A message with text and no image is projected to exactly one part, a text part
  equal to the message's text, under the message's role.
\<close>

theorem format_message_text_only:
  assumes "message_image m = None" and "message_text m \<noteq> []"
  shows "format_message m = \<lparr>item_role = message_role m, item_parts = [TextPart (message_text m)]\<rparr>"
  using assms by (simp add: format_message_def)

theorem format_message_text_only_witness:
  "format_message
     \<lparr>message_id = ''1'', message_role = User, message_text = ''What is 2+2?'',
      message_image = None, message_timestamp = 0\<rparr>
   = \<lparr>item_role = User, item_parts = [TextPart ''What is 2+2?'']\<rparr>"
  using format_message_text_only
    [of "\<lparr>message_id = ''1'', message_role = User, message_text = ''What is 2+2?'',
          message_image = None, message_timestamp = 0\<rparr>"]
  by simp

text \<open>
  C3. The request resends the whole conversation: its contents are one item per stored
  message, in order and each the projection of that message, followed by the new user
  turn as the last item; the configuration is fixed (the model, the system instruction,
  a thinking budget of 32768, no output-length cap) whatever the inputs.
\<close>

theorem build_request_resends_history:
  "length (req_contents (build_request h t i)) = Suc (length h) \<and>
   (\<forall>k < length h. req_contents (build_request h t i) ! k = format_message (h ! k)) \<and>
   last (req_contents (build_request h t i)) = \<lparr>item_role = User, item_parts = new_parts t i\<rparr> \<and>
   req_model (build_request h t i) = MODEL_ID \<and>
   req_system_instruction (build_request h t i) = SYSTEM_INSTRUCTION \<and>
   req_thinking_budget (build_request h t i) = 32768 \<and>
   req_max_output_tokens (build_request h t i) = None"
  by (simp add: request_defs formatHistory_def nth_append)

theorem build_request_resends_history_witness:
  "length (req_contents (build_request
      [\<lparr>message_id = ''1'', message_role = User, message_text = ''hi'',
        message_image = None, message_timestamp = 0\<rparr>] ''next'' None)) = 2 \<and>
   req_max_output_tokens (build_request
      [\<lparr>message_id = ''1'', message_role = User, message_text = ''hi'',
        message_image = None, message_timestamp = 0\<rparr>] ''next'' None) = None"
  using build_request_resends_history
    [of "[\<lparr>message_id = ''1'', message_role = User, message_text = ''hi'',
           message_image = None, message_timestamp = 0\<rparr>]" "''next''" None]
  by simp

text \<open>
  C4. In the new user turn the image part comes first, with the media type fixed to
  \<open>image/jpeg\<close> whatever the file's type, and the text part second.
\<close>

theorem new_parts_image_before_text:
  assumes "t \<noteq> []" and "b \<noteq> []"
  shows "new_parts t (Some b) = [InlineDataPart ''image/jpeg'' (Some b), TextPart t]"
  using assms by (simp add: new_parts_def)

theorem new_parts_image_before_text_witness:
  "new_parts ''Solve this'' (Some ''iVBO'') =
     [InlineDataPart ''image/jpeg'' (Some ''iVBO''), TextPart ''Solve this'']"
  by (rule new_parts_image_before_text) simp_all

text \<open>
  C5. The new user turn has no part exactly when the text is empty and the image payload
  is absent or empty: the builder itself does not refuse to emit an empty turn.
\<close>

theorem new_parts_empty_iff:
  "new_parts t i = [] \<longleftrightarrow> t = [] \<and> (i = None \<or> i = Some [])"
  by (auto simp: new_parts_def split: option.splits)

theorem new_parts_empty_iff_witness: "new_parts [] (Some []) = []"
  using new_parts_empty_iff [of "[]" "Some []"] by simp

subsection \<open>Properties of the Model Client\<close>

text \<open>
  C6. When the provider fails, \<open>generateResponse\<close> fails with a
  \<open>ModelInvocationError\<close> carrying the provider's cause, for any provider and inputs.
\<close>

theorem generateResponse_failure:
  assumes "provider (build_request h t i) = ProviderFailure c"
  shows "generateResponse provider h t i = Inl (ModelInvocationError c)"
  using assms by (simp add: generateResponse_def)

theorem generateResponse_failure_witness:
  "generateResponse (\<lambda>_. ProviderFailure ''network'') [] ''hello'' None
     = Inl (ModelInvocationError ''network'')"
  by (rule generateResponse_failure) simp

text \<open>
  C7. A successful response with no text or an empty text yields the fixed apology, and
  a successful response with a non-empty text yields that text unchanged.
\<close>

theorem generateResponse_fallback:
  assumes "provider (build_request h t i) = ProviderSuccess r"
  shows "generateResponse provider h t i =
           Inr (if r = None \<or> r = Some [] then FALLBACK_REPLY else the r)"
  using assms by (auto simp: generateResponse_def split: option.splits)

theorem generateResponse_fallback_witness:
  "generateResponse (\<lambda>_. ProviderSuccess None) [] ''hello'' None = Inr FALLBACK_REPLY"
  using generateResponse_fallback [of "\<lambda>_. ProviderSuccess None" "[]" "''hello''" None None]
  by simp

text \<open>
  C8. Whatever the provider does, a successful \<open>generateResponse\<close> never returns the
  empty string.
\<close>

theorem generateResponse_nonempty:
  assumes "generateResponse provider h t i = Inr reply"
  shows "reply \<noteq> []"
  using assms by (simp add: generateResponse_def normalize_response_nonempty)

theorem generateResponse_nonempty_witness:
  "generateResponse (\<lambda>_. ProviderSuccess (Some [])) [] ''hello'' None = Inr FALLBACK_REPLY \<and>
   FALLBACK_REPLY \<noteq> []"
proof -
  have eq: "generateResponse (\<lambda>_. ProviderSuccess (Some [])) [] ''hello'' None = Inr FALLBACK_REPLY"
    by (simp add: generateResponse_def)
  show ?thesis using eq generateResponse_nonempty [OF eq] by simp
qed

text \<open>
  C9. A stored image reference with no comma is not rejected: the builder emits an inline
  part whose data is \<open>undefined\<close> (\<open>None\<close>), with the media type read from the whole
  reference.
\<close>

theorem image_part_without_comma:
  assumes "CHR '','' \<notin> set img"
  shows "image_part_of_data_url img = InlineDataPart (mime_of_header img) None"
  using assms by (simp add: image_part_of_data_url_def js_split_no_sep)

theorem image_part_without_comma_witness:
  "image_part_of_data_url ''data:'' = InlineDataPart (mime_of_header ''data:'') None"
  by (rule image_part_without_comma) simp

text \<open>
  C10. The projection of the history keeps its length and order of roles: the i-th item
  has the role of the i-th message.
\<close>

theorem formatHistory_roles:
  "map item_role (formatHistory ms) = map message_role ms"
  by (simp add: formatHistory_def)

subsection \<open>Shape of every request\<close>

lemma mime_of_header_nonempty: "mime_of_header h \<noteq> []"
  by (simp add: mime_of_header_def split: option.splits)

lemma image_part_wf [simp]: "part_wf (image_part_of_data_url img)"
  by (simp add: image_part_of_data_url_def Let_def mime_of_header_nonempty)

lemma format_message_parts_wf: "list_all part_wf (item_parts (format_message m))"
  by (simp add: format_message_def split: option.splits)

lemma new_parts_wf: "list_all part_wf (new_parts t i)"
  by (simp add: new_parts_def split: option.splits)

text \<open>
  C39. Every request \<open>generateResponse\<close> sends is well formed part by part, whatever
  the history and the new input: no text part is empty and every inline part declares a
  non-empty media type, because the fallback \<open>|| 'image/jpeg'\<close> replaces both a missing
  and an empty match of the header.
\<close>

theorem build_request_parts_wf: "request_parts_wf (build_request h t i)"
  by (simp add: request_parts_wf_def build_request_def new_content_def formatHistory_def
                list_all_iff format_message_parts_wf [unfolded list_all_iff] new_parts_wf [unfolded list_all_iff])

theorem build_request_parts_wf_witness:
  "request_parts_wf (build_request
     [\<lparr>message_id = ''0'', message_role = User, message_text = [],
       message_image = Some ''data:;base64,AAAA'', message_timestamp = 0\<rparr>] [] (Some ''AAAA''))"
  by (rule build_request_parts_wf)

end
