(* ===== verification/InputArea.thy ===== *)
theory InputArea
  imports Gemini
begin

text \<open>
  \<open>src/components/InputArea.tsx\<close>: the composer (its text and selected image, React
  state), the file input element, and the Attachment Codec (\<open>handleFileChange\<close> with
  \<open>convertFileToBase64\<close>). Each handler is a function from the component's state to
  the new state and the effects it causes: \<open>OnSend\<close> is the call of the \<open>onSend\<close>
  prop, \<open>Alert\<close> the \<open>alert\<close> call, \<open>LogError\<close> the \<open>console.error\<close> call.

  \<open>handleFileChange\<close> is asynchronous: it suspends at \<open>await convertFileToBase64\<close>.
  The model splits it at that point into the start (the change event, which records a
  read in flight) and the completion (the \<open>onload\<close> or \<open>onerror\<close> of that read,
  which runs the rest of the handler). Other events may happen in between, so the order
  of events is explicit. The reader's result is a parameter of the completion event: it
  comes from the browser.

  The \<open>isLoading\<close> prop is an argument of every step. \<open>render_input\<close> is the JSX
  (lines 72--145) as the decisions it makes; \<open>input_event_enabled\<close> reads from it which
  events the page can deliver in a state: the \<open>disabled\<close> attributes of the text area,
  the upload button and the send button, and the clear button that is only rendered
  with a selected image.

  Reads in flight carry numbers that the source does not have: each completion belongs
  to the \<open>FileReader\<close> created by one change event, and the number names that pairing.
\<close>

record file_info =
  file_type :: string

record input_state =
  ia_text :: string
  ia_selected_image :: "image_data option"
  ia_file_input :: "file_info option"
  ia_pending_reads :: "(nat \<times> file_info) list"
  ia_next_read :: nat

datatype input_effect =
    OnSend user_params
  | Alert string
  | LogError string

datatype input_event =
    TextChange string
  | KeyDown string bool
  | ClickSend
  | ClickClear
  | FileChange "file_info option"
  | ReadLoad nat string
  | ReadFail nat

definition input_init :: input_state where
  "input_init =
     \<lparr>ia_text = [], ia_selected_image = None, ia_file_input = None,
      ia_pending_reads = [], ia_next_read = 0\<rparr>"

subsection \<open>Handlers\<close>

text \<open>Lines 60--66: the guard, the call of \<open>onSend\<close>, then both fields reset.\<close>

definition handleSend :: "bool \<Rightarrow> input_state \<Rightarrow> input_state \<times> input_effect list" where
  "handleSend isLoading s =
     (if (js_trim (ia_text s) = [] \<and> ia_selected_image s = None) \<or> isLoading then (s, [])
      else (s\<lparr>ia_text := [], ia_selected_image := None\<rparr>,
            [OnSend \<lparr>params_text = ia_text s, params_image = ia_selected_image s\<rparr>]))"

text \<open>Lines 15--20: Enter without Shift sends (and \<open>preventDefault\<close> keeps the newline out).\<close>

definition handleKeyDown ::
  "bool \<Rightarrow> string \<Rightarrow> bool \<Rightarrow> input_state \<Rightarrow> input_state \<times> input_effect list" where
  "handleKeyDown isLoading key shiftKey s =
     (if key = ''Enter'' \<and> \<not> shiftKey then handleSend isLoading s else (s, []))"

text \<open>Lines 68--70.\<close>

definition clearImage :: "input_state \<Rightarrow> input_state \<times> input_effect list" where
  "clearImage s = (s\<lparr>ia_selected_image := None\<rparr>, [])"

text \<open>
  Lines 22--32 up to the \<open>await\<close>: no file, or a file whose type does not start with
  \<open>image/\<close> (alert, and the early return skips the reset of the input); otherwise a
  read starts (lines 51--58: \<open>readAsDataURL\<close>).
\<close>

definition handleFileChange ::
  "file_info option \<Rightarrow> input_state \<Rightarrow> input_state \<times> input_effect list" where
  "handleFileChange f s =
     (case f of
        None \<Rightarrow> (s, [])
      | Some file \<Rightarrow>
          if \<not> js_starts_with (file_type file) ''image/''
          then (s, [Alert ''Please upload an image file''])
          else (s\<lparr>ia_pending_reads := ia_pending_reads s @ [(ia_next_read s, file)],
                  ia_next_read := Suc (ia_next_read s)\<rparr>, []))"

definition drop_read :: "nat \<Rightarrow> (nat \<times> file_info) list \<Rightarrow> (nat \<times> file_info) list" where
  "drop_read k rs = filter (\<lambda>(j, _). j \<noteq> k) rs"

text \<open>
  Lines 32--48 after the \<open>await\<close>, when read \<open>k\<close> resolves with \<open>base64\<close>: the
  preview keeps the whole data URL, the API data is \<open>base64.split(',')[1]\<close>, the
  media type is the file's; then the input element is reset (line 48).
\<close>

definition fileLoaded ::
  "nat \<Rightarrow> string \<Rightarrow> input_state \<Rightarrow> input_state \<times> input_effect list" where
  "fileLoaded k base64 s =
     (case map_of (ia_pending_reads s) k of
        None \<Rightarrow> (s, [])
      | Some file \<Rightarrow>
          (let preview = base64;
               apiData = js_index (js_split CHR '','' base64) 1
           in (s\<lparr>ia_selected_image :=
                    Some \<lparr>image_base64 = apiData, image_preview = preview,
                          image_mime_type = file_type file\<rparr>,
                  ia_pending_reads := drop_read k (ia_pending_reads s),
                  ia_file_input := None\<rparr>, [])))"

text \<open>Lines 43--48, when read \<open>k\<close> rejects: the error is logged, the input is reset.\<close>

definition fileReadFailed :: "nat \<Rightarrow> input_state \<Rightarrow> input_state \<times> input_effect list" where
  "fileReadFailed k s =
     (case map_of (ia_pending_reads s) k of
        None \<Rightarrow> (s, [])
      | Some file \<Rightarrow>
          (s\<lparr>ia_pending_reads := drop_read k (ia_pending_reads s), ia_file_input := None\<rparr>,
           [LogError ''Error reading file'']))"

subsection \<open>Events\<close>

text \<open>
  A change of the file input first sets the element's value (the browser does this
  before it fires \<open>change\<close>), then runs the handler with \<open>e.target.files?.[0]\<close>.
\<close>

fun input_step :: "bool \<Rightarrow> input_state \<Rightarrow> input_event \<Rightarrow> input_state \<times> input_effect list" where
  "input_step isLoading s (TextChange t) = (s\<lparr>ia_text := t\<rparr>, [])"
| "input_step isLoading s (KeyDown key shiftKey) = handleKeyDown isLoading key shiftKey s"
| "input_step isLoading s ClickSend = handleSend isLoading s"
| "input_step isLoading s ClickClear = clearImage s"
| "input_step isLoading s (FileChange f) = handleFileChange f (s\<lparr>ia_file_input := f\<rparr>)"
| "input_step isLoading s (ReadLoad k base64) = fileLoaded k base64 s"
| "input_step isLoading s (ReadFail k) = fileReadFailed k s"

subsection \<open>The composer's view\<close>

text \<open>
  Lines 72--145: the JSX as the decisions it makes. \<open>selectedImage && (...)\<close> renders
  the preview and its clear button for any attachment (an object is truthy); the upload
  button and the text area are \<open>disabled={isLoading}\<close>; the send button is disabled
  by the condition of line 127, its class chosen by the same condition (lines 128--132),
  and its icon is the spinner while loading (line 134).
\<close>

record composer_view =
  cv_preview :: "string option"
  cv_clear_button :: bool
  cv_upload_disabled :: bool
  cv_textarea_value :: string
  cv_textarea_disabled :: bool
  cv_placeholder :: string
  cv_send_disabled :: bool
  cv_send_class :: string
  cv_send_spinner :: bool

definition render_input :: "bool \<Rightarrow> input_state \<Rightarrow> composer_view" where
  "render_input isLoading s =
     (let blocked = (js_trim (ia_text s) = [] \<and> ia_selected_image s = None) \<or> isLoading
      in \<lparr>cv_preview = map_option image_preview (ia_selected_image s),
          cv_clear_button = (ia_selected_image s \<noteq> None),
          cv_upload_disabled = isLoading,
          cv_textarea_value = ia_text s,
          cv_textarea_disabled = isLoading,
          cv_placeholder =
            (if ia_selected_image s \<noteq> None then ''Add a question about this image...''
             else ''Ask a math question or upload a problem...''),
          cv_send_disabled = blocked,
          cv_send_class =
            ''p-2 rounded-xl flex items-center justify-center transition-all '' @
            (if blocked then ''bg-slate-200 text-slate-400 cursor-not-allowed''
             else ''bg-indigo-600 text-white hover:bg-indigo-700 shadow-sm''),
          cv_send_spinner = isLoading\<rparr>)"

text \<open>
  The events the page can deliver in a state: a control that is rendered and not
  disabled. The hidden file input is opened through the upload button; a read completes
  only if it is in flight.
\<close>

fun input_event_enabled :: "bool \<Rightarrow> input_state \<Rightarrow> input_event \<Rightarrow> bool" where
  "input_event_enabled isLoading s (TextChange t) = (\<not> cv_textarea_disabled (render_input isLoading s))"
| "input_event_enabled isLoading s (KeyDown key shiftKey) =
     (\<not> cv_textarea_disabled (render_input isLoading s))"
| "input_event_enabled isLoading s ClickSend = (\<not> cv_send_disabled (render_input isLoading s))"
| "input_event_enabled isLoading s ClickClear = cv_clear_button (render_input isLoading s)"
| "input_event_enabled isLoading s (FileChange f) = (\<not> cv_upload_disabled (render_input isLoading s))"
| "input_event_enabled isLoading s (ReadLoad k base64) = (k \<in> fst ` set (ia_pending_reads s))"
| "input_event_enabled isLoading s (ReadFail k) = (k \<in> fst ` set (ia_pending_reads s))"

text \<open>A run of events at a fixed \<open>isLoading\<close>, collecting the effects in order.\<close>

fun input_run ::
  "bool \<Rightarrow> input_state \<Rightarrow> input_event list \<Rightarrow> input_state \<times> input_effect list" where
  "input_run isLoading s [] = (s, [])"
| "input_run isLoading s (e # es) =
     (let (s', out) = input_step isLoading s e;
          (s'', out') = input_run isLoading s' es
      in (s'', out @ out'))"

text \<open>A run in which the page can deliver every event in the state it reaches.\<close>

fun input_enabled_run :: "bool \<Rightarrow> input_state \<Rightarrow> input_event list \<Rightarrow> bool" where
  "input_enabled_run isLoading s [] = True"
| "input_enabled_run isLoading s (e # es) =
     (input_event_enabled isLoading s e \<and> input_enabled_run isLoading (fst (input_step isLoading s e)) es)"

definition pending_ok :: "input_state \<Rightarrow> bool" where
  "pending_ok s \<longleftrightarrow>
     distinct (map fst (ia_pending_reads s)) \<and>
     (\<forall>k \<in> fst ` set (ia_pending_reads s). k < ia_next_read s)"

text \<open>
  The attachment the codec builds from read \<open>k\<close> of file \<open>f\<close> resolving with the
  data URL \<open>d\<close> (lines 35--42).
\<close>

abbreviation loaded_image :: "file_info \<Rightarrow> string \<Rightarrow> image_data" where
  "loaded_image f d \<equiv>
     \<lparr>image_base64 = js_index (js_split CHR '','' d) 1, image_preview = d,
      image_mime_type = file_type f\<rparr>"

text \<open>
  What the composer may hold: every read in flight is of a file the type check of line 26
  accepted, and a selected image is of an \<open>image/\<close> type with its API data the second
  comma-separated segment of its preview.
\<close>

definition attachment_ok :: "image_data \<Rightarrow> bool" where
  "attachment_ok img \<longleftrightarrow>
     js_starts_with (image_mime_type img) ''image/'' \<and>
     image_base64 img = js_index (js_split CHR '','' (image_preview img)) 1"

definition attachments_ok :: "input_state \<Rightarrow> bool" where
  "attachments_ok s \<longleftrightarrow>
     list_all (\<lambda>(k, f). js_starts_with (file_type f) ''image/'') (ia_pending_reads s) \<and>
     pred_option attachment_ok (ia_selected_image s)"

subsection \<open>Lemmas\<close>

lemmas handler_defs = handleSend_def handleKeyDown_def clearImage_def handleFileChange_def
  fileLoaded_def fileReadFailed_def

lemma handleSend_effects:
  "handleSend l s = (s', out) \<Longrightarrow> out \<noteq> [] \<Longrightarrow>
     \<not> l \<and> (js_trim (ia_text s) \<noteq> [] \<or> ia_selected_image s \<noteq> None) \<and>
     out = [OnSend \<lparr>params_text = ia_text s, params_image = ia_selected_image s\<rparr>] \<and>
     s' = s\<lparr>ia_text := [], ia_selected_image := None\<rparr>"
  by (auto simp: handleSend_def split: if_splits)

lemma input_step_OnSend_cases:
  "OnSend p \<in> set (snd (input_step l s e)) \<Longrightarrow>
     input_step l s e = handleSend l s \<and> snd (handleSend l s) \<noteq> []"
  by (cases e) (auto simp: handler_defs Let_def split: if_splits option.splits)

lemma input_step_sends:
  assumes "OnSend p \<in> set (snd (input_step l s e))"
  shows "snd (input_step l s e) = [OnSend \<lparr>params_text = ia_text s, params_image = ia_selected_image s\<rparr>] \<and>
         \<not> l \<and> (js_trim (ia_text s) \<noteq> [] \<or> ia_selected_image s \<noteq> None)"
proof -
  from assms have step: "input_step l s e = handleSend l s" and out: "snd (handleSend l s) \<noteq> []"
    by (auto dest: input_step_OnSend_cases)
  obtain s' out' where hs: "handleSend l s = (s', out')" by fastforce
  with out have "out' \<noteq> []" by simp
  with hs step show ?thesis by (auto dest: handleSend_effects)
qed

lemma map_of_snoc_fresh:
  "k \<notin> fst ` set rs \<Longrightarrow> map_of (rs @ [(k, f)]) k = Some f"
proof -
  assume "k \<notin> fst ` set rs"
  then have "map_of rs k = None" by (simp add: map_of_eq_None_iff)
  then show ?thesis by (simp add: map_of_append map_add_def)
qed

lemma drop_read_fst: "fst ` set (drop_read k rs) = fst ` set rs - {k}"
  by (auto simp: drop_read_def)

lemma drop_read_mem: "x \<in> set (drop_read k rs) \<Longrightarrow> x \<in> set rs"
  by (simp add: drop_read_def)

lemma distinct_drop_read: "distinct (map fst rs) \<Longrightarrow> distinct (map fst (drop_read k rs))"
  by (induction rs) (auto simp: drop_read_def)

lemma pending_ok_step: "pending_ok s \<Longrightarrow> pending_ok (fst (input_step l s e))"
proof (cases e)
  case (FileChange f)
  assume "pending_ok s"
  then show ?thesis using FileChange
    by (auto simp: pending_ok_def handleFileChange_def split: option.splits)
next
  case (ReadLoad k b)
  assume "pending_ok s"
  then show ?thesis using ReadLoad
    by (auto simp: pending_ok_def fileLoaded_def distinct_drop_read Let_def
             dest: drop_read_mem split: option.splits)
next
  case (ReadFail k)
  assume "pending_ok s"
  then show ?thesis using ReadFail
    by (auto simp: pending_ok_def fileReadFailed_def distinct_drop_read
             dest: drop_read_mem split: option.splits)
qed (auto simp: pending_ok_def handler_defs)

lemma pending_ok_run: "pending_ok s \<Longrightarrow> pending_ok (fst (input_run l s es))"
proof (induction es arbitrary: s)
  case Nil
  then show ?case by simp
next
  case (Cons e es)
  from Cons.prems have "pending_ok (fst (input_step l s e))" by (rule pending_ok_step)
  then have "pending_ok (fst (input_run l (fst (input_step l s e)) es))" by (rule Cons.IH)
  then show ?case by (simp add: case_prod_beta)
qed

lemma pending_ok_init: "pending_ok input_init"
  by (simp add: pending_ok_def input_init_def)

lemma input_run_append:
  "input_run l s (es @ es') =
     (let (s', out) = input_run l s es; (s'', out') = input_run l s' es' in (s'', out @ out'))"
  by (induction es arbitrary: s) (auto simp: case_prod_beta)

subsection \<open>Properties of the composer\<close>

text \<open>
  C11. Whatever event the composer receives, it calls \<open>onSend\<close> only when it is not
  loading and has a non-blank text or a selected image; the call carries the current
  text and image, and afterwards both are cleared.
\<close>

theorem input_step_send_guard:
  assumes "OnSend p \<in> set (snd (input_step l s e))"
  shows "\<not> l \<and> (js_trim (params_text p) \<noteq> [] \<or> params_image p \<noteq> None) \<and>
         params_text p = ia_text s \<and> params_image p = ia_selected_image s \<and>
         ia_text (fst (input_step l s e)) = [] \<and> ia_selected_image (fst (input_step l s e)) = None"
proof -
  from assms have step: "input_step l s e = handleSend l s" and out: "snd (handleSend l s) \<noteq> []"
    by (auto dest: input_step_OnSend_cases)
  obtain s' out' where hs: "handleSend l s = (s', out')" by fastforce
  with out have "out' \<noteq> []" by simp
  with hs have facts: "\<not> l \<and> (js_trim (ia_text s) \<noteq> [] \<or> ia_selected_image s \<noteq> None) \<and>
     out' = [OnSend \<lparr>params_text = ia_text s, params_image = ia_selected_image s\<rparr>] \<and>
     s' = s\<lparr>ia_text := [], ia_selected_image := None\<rparr>"
    by (rule handleSend_effects)
  with assms step hs show ?thesis by auto
qed


theorem input_step_send_guard_witness:
  "OnSend \<lparr>params_text = ''x^2'', params_image = None\<rparr>
     \<in> set (snd (input_step False (input_init\<lparr>ia_text := ''x^2''\<rparr>) ClickSend)) \<and>
   ia_text (fst (input_step False (input_init\<lparr>ia_text := ''x^2''\<rparr>) ClickSend)) = []"
proof -
  have "OnSend \<lparr>params_text = ''x^2'', params_image = None\<rparr>
     \<in> set (snd (input_step False (input_init\<lparr>ia_text := ''x^2''\<rparr>) ClickSend))"
    by (simp add: handleSend_def input_init_def js_trim_def js_whitespace_def
                  js_line_terminator_def)
  with input_step_send_guard [OF this] show ?thesis by simp
qed

text \<open>
  C12. With a blank text (only white space) and no image, clicking send or pressing
  Enter changes nothing and sends nothing.
\<close>

theorem blank_send_noop:
  assumes "js_trim (ia_text s) = []" and "ia_selected_image s = None"
  shows "input_step l s ClickSend = (s, []) \<and> input_step l s (KeyDown ''Enter'' False) = (s, [])"
  using assms by (simp add: handleSend_def handleKeyDown_def)

theorem blank_send_noop_witness:
  "input_step False (input_init\<lparr>ia_text := '' \<newline> ''\<rparr>) ClickSend
     = (input_init\<lparr>ia_text := '' \<newline> ''\<rparr>, [])"
proof -
  have "js_trim (ia_text (input_init\<lparr>ia_text := '' \<newline> ''\<rparr>)) = []"
    by (simp add: js_trim_def js_whitespace_def js_line_terminator_def)
  moreover have "ia_selected_image (input_init\<lparr>ia_text := '' \<newline> ''\<rparr>) = None"
    by (simp add: input_init_def)
  ultimately show ?thesis using blank_send_noop by blast
qed

text \<open>
  C13. While a response is awaited (\<open>isLoading\<close>), clicking send or pressing Enter
  changes nothing and sends nothing, whatever the composer holds.
\<close>

theorem loading_send_noop:
  "input_step True s ClickSend = (s, []) \<and> input_step True s (KeyDown ''Enter'' False) = (s, [])"
  by (simp add: handleSend_def handleKeyDown_def)

text \<open>
  C14. A file whose type does not start with \<open>image/\<close> is rejected with an alert:
  the text, the selected image and the reads in flight are unchanged, and the file input
  keeps the rejected file (the early return skips its reset).
\<close>

theorem file_change_non_image:
  assumes "\<not> js_starts_with (file_type f) ''image/''"
  shows "input_step l s (FileChange (Some f)) =
           (s\<lparr>ia_file_input := Some f\<rparr>, [Alert ''Please upload an image file''])"
  using assms by (simp add: handleFileChange_def)

theorem file_change_non_image_witness:
  "input_step False input_init (FileChange (Some \<lparr>file_type = ''application/pdf''\<rparr>)) =
     (input_init\<lparr>ia_file_input := Some \<lparr>file_type = ''application/pdf''\<rparr>\<rparr>,
      [Alert ''Please upload an image file''])"
  by (rule file_change_non_image) (simp add: js_starts_with_def)

text \<open>
  C15. The codec's round trip: selecting an image file and then receiving its data URL
  \<open>data:<type>;base64,<b>\<close> from the reader selects an attachment whose API data is
  exactly \<open>b\<close>, whose preview is the whole data URL and whose media type is the file's
  type, and resets the file input.
\<close>

theorem codec_roundtrip:
  assumes ok: "pending_ok s" and img: "js_starts_with (file_type f) ''image/''"
    and mt: "media_type_ok (file_type f)" and b: "CHR '','' \<notin> set b"
  shows "ia_selected_image
           (fst (input_run l s [FileChange (Some f), ReadLoad (ia_next_read s) (data_url (file_type f) b)]))
         = Some \<lparr>image_base64 = Some b, image_preview = data_url (file_type f) b,
                 image_mime_type = file_type f\<rparr> \<and>
         ia_file_input
           (fst (input_run l s [FileChange (Some f), ReadLoad (ia_next_read s) (data_url (file_type f) b)]))
         = None"
proof -
  from ok have fresh: "ia_next_read s \<notin> fst ` set (ia_pending_reads s)"
    by (auto simp: pending_ok_def)
  have look: "map_of (ia_pending_reads s @ [(ia_next_read s, f)]) (ia_next_read s) = Some f"
    using fresh by (rule map_of_snoc_fresh)
  have segs: "js_split CHR '','' (data_url (file_type f) b) = [''data:'' @ file_type f @ '';base64'', b]"
    using mt b by (rule data_url_split)
  show ?thesis
    using img look by (simp add: handleFileChange_def fileLoaded_def segs js_index_def)
qed

theorem codec_roundtrip_witness:
  "ia_selected_image
     (fst (input_run False input_init
        [FileChange (Some \<lparr>file_type = ''image/png''\<rparr>), ReadLoad 0 (data_url ''image/png'' ''iVBO'')]))
   = Some \<lparr>image_base64 = Some ''iVBO'', image_preview = data_url ''image/png'' ''iVBO'',
           image_mime_type = ''image/png''\<rparr>"
proof -
  have "pending_ok input_init" by (rule pending_ok_init)
  moreover have "js_starts_with (file_type \<lparr>file_type = ''image/png''\<rparr>) ''image/''"
    by (simp add: js_starts_with_def)
  moreover have "media_type_ok (file_type \<lparr>file_type = ''image/png''\<rparr>)"
    by (simp add: media_type_ok_def regex_group_clean_def js_line_terminator_def)
  moreover have "CHR '','' \<notin> set ''iVBO''" by simp
  ultimately show ?thesis
    using codec_roundtrip [of input_init "\<lparr>file_type = ''image/png''\<rparr>" "''iVBO''" False]
    by (simp add: input_init_def)
qed

lemma map_of_drop_read: "j \<noteq> k \<Longrightarrow> map_of (drop_read k rs) j = map_of rs j"
  by (induction rs) (auto simp: drop_read_def)

lemma pending_image_files:
  "list_all (\<lambda>(k, f). P f) rs \<Longrightarrow> map_of rs k = Some f \<Longrightarrow> P f"
  by (auto simp: list_all_iff dest: map_of_SomeD)

lemma list_all_drop_read: "list_all P rs \<Longrightarrow> list_all P (drop_read k rs)"
  by (simp add: drop_read_def list_all_iff)

lemma attachments_ok_step:
  assumes ok: "attachments_ok s"
  shows "attachments_ok (fst (input_step l s e))"
proof (cases e)
  case (ReadLoad k d)
  show ?thesis
  proof (cases "map_of (ia_pending_reads s) k")
    case (Some f)
    from ok have "list_all (\<lambda>(k, f). js_starts_with (file_type f) ''image/'') (ia_pending_reads s)"
      by (simp add: attachments_ok_def)
    then have "js_starts_with (file_type f) ''image/''" using Some by (rule pending_image_files)
    with ok Some ReadLoad show ?thesis
      by (simp add: attachments_ok_def attachment_ok_def fileLoaded_def list_all_drop_read)
  qed (simp add: ReadLoad ok fileLoaded_def)
next
  case (ReadFail k)
  with ok show ?thesis
    by (simp add: attachments_ok_def fileReadFailed_def list_all_drop_read split: option.splits)
next
  case (FileChange f)
  with ok show ?thesis by (simp add: attachments_ok_def handleFileChange_def split: option.splits)
next
  case (KeyDown k b)
  with ok show ?thesis by (simp add: attachments_ok_def handleKeyDown_def handleSend_def)
qed (insert ok, simp_all add: attachments_ok_def handleSend_def clearImage_def)

lemma attachments_ok_run: "attachments_ok s \<Longrightarrow> attachments_ok (fst (input_run l s es))"
  by (induction es arbitrary: s) (simp_all add: case_prod_beta attachments_ok_step)

lemma file_read_attaches:
  assumes "pending_ok s" and "js_starts_with (file_type f) ''image/''"
  shows "ia_selected_image (fst (input_run l s [FileChange (Some f), ReadLoad (ia_next_read s) d]))
           = Some (loaded_image f d)"
proof -
  from assms(1) have "ia_next_read s \<notin> fst ` set (ia_pending_reads s)"
    by (auto simp: pending_ok_def)
  then have "map_of (ia_pending_reads s @ [(ia_next_read s, f)]) (ia_next_read s) = Some f"
    by (rule map_of_snoc_fresh)
  with assms(2) show ?thesis by (simp add: handleFileChange_def fileLoaded_def)
qed

text \<open>
  C16. The composer holds exactly the images of accepted files, whatever the order in
  which reads start and complete: in every state a run from the initial composer reaches,
  each read in flight is of an \<open>image/\<close> file and a selected image has an
  \<open>image/\<close> media type and API data cut from its own preview; and from any such state,
  choosing an image file and receiving its read attaches exactly what the codec builds
  from it.
\<close>

theorem composer_attachments:
  "attachments_ok (fst (input_run l input_init es)) \<and>
   (js_starts_with (file_type f) ''image/'' \<longrightarrow>
      ia_selected_image (fst (input_run l input_init
        (es @ [FileChange (Some f), ReadLoad (ia_next_read (fst (input_run l input_init es))) d])))
      = Some (loaded_image f d))"
proof -
  have ok: "attachments_ok input_init" by (simp add: attachments_ok_def input_init_def)
  have p: "pending_ok (fst (input_run l input_init es))"
    using pending_ok_init by (rule pending_ok_run)
  show ?thesis
    using attachments_ok_run [OF ok] file_read_attaches [OF p]
    by (simp add: input_run_append case_prod_beta)
qed

theorem composer_attachments_witness:
  "ia_selected_image (fst (input_run False input_init
     [FileChange (Some \<lparr>file_type = ''image/png''\<rparr>), ReadLoad 0 ''data:image/png;base64,AA'']))
   = Some \<lparr>image_base64 = Some ''AA'', image_preview = ''data:image/png;base64,AA'',
           image_mime_type = ''image/png''\<rparr>"
  using composer_attachments [of False "[]" "\<lparr>file_type = ''image/png''\<rparr>" "''data:image/png;base64,AA''"]
  by (simp add: js_starts_with_def input_init_def js_index_def)

subsection \<open>Interleavings of the asynchronous read\<close>

text \<open>
  C17. A send does not wait for a read in flight: in any state where a read is pending
  and the text is not blank, clicking send (which the page allows) sends the text with
  whatever image was selected before, and when the read then completes its image is
  attached to the cleared composer, for the next message.
\<close>

theorem send_before_read_completes:
  assumes "map_of (ia_pending_reads s) k = Some f" and "js_trim (ia_text s) \<noteq> []"
  shows "input_enabled_run False s [ClickSend, ReadLoad k d] \<and>
         input_run False s [ClickSend, ReadLoad k d] =
           (s\<lparr>ia_text := [], ia_selected_image := Some (loaded_image f d),
               ia_pending_reads := drop_read k (ia_pending_reads s), ia_file_input := None\<rparr>,
            [OnSend \<lparr>params_text = ia_text s, params_image = ia_selected_image s\<rparr>])"
proof -
  from assms(1) have "k \<in> fst ` set (ia_pending_reads s)"
    by (force dest: map_of_SomeD)
  with assms show ?thesis
    by (simp add: render_input_def handleSend_def fileLoaded_def Let_def)
qed

theorem send_before_read_completes_witness:
  "input_run False
     \<lparr>ia_text = ''Solve it'', ia_selected_image = None, ia_file_input = None,
      ia_pending_reads = [(0, \<lparr>file_type = ''image/png''\<rparr>)], ia_next_read = 1\<rparr>
     [ClickSend, ReadLoad 0 ''data:image/png;base64,AA''] =
   (\<lparr>ia_text = [], ia_selected_image = Some \<lparr>image_base64 = Some ''AA'',
       image_preview = ''data:image/png;base64,AA'', image_mime_type = ''image/png''\<rparr>,
     ia_file_input = None, ia_pending_reads = [], ia_next_read = 1\<rparr>,
    [OnSend \<lparr>params_text = ''Solve it'', params_image = None\<rparr>])"
  using send_before_read_completes
    [of "\<lparr>ia_text = ''Solve it'', ia_selected_image = None, ia_file_input = None,
          ia_pending_reads = [(0, \<lparr>file_type = ''image/png''\<rparr>)], ia_next_read = 1\<rparr>"
        0 "\<lparr>file_type = ''image/png''\<rparr>" "''data:image/png;base64,AA''"]
  by (simp add: js_trim_def js_whitespace_def js_line_terminator_def drop_read_def js_index_def)

text \<open>
  C18. Two reads in flight race: whatever the composer held, if the user chooses one image
  file and then another, and the second read completes first, the attachment is the first
  file's, not the one chosen last. Every event of the run is one the page delivers.
\<close>

theorem reads_race_last_completion_wins:
  assumes "pending_ok s"
    and "js_starts_with (file_type f1) ''image/''" and "js_starts_with (file_type f2) ''image/''"
  shows "input_enabled_run False s
           [FileChange (Some f1), FileChange (Some f2),
            ReadLoad (Suc (ia_next_read s)) d2, ReadLoad (ia_next_read s) d1] \<and>
         ia_selected_image (fst (input_run False s
           [FileChange (Some f1), FileChange (Some f2),
            ReadLoad (Suc (ia_next_read s)) d2, ReadLoad (ia_next_read s) d1]))
         = Some (loaded_image f1 d1)"
proof -
  let ?n = "ia_next_read s" and ?rs = "ia_pending_reads s"
  from assms(1) have fresh: "?n \<notin> fst ` set ?rs" "Suc ?n \<notin> fst ` set ?rs"
    by (auto simp: pending_ok_def)
  then have none: "map_of ?rs ?n = None" "map_of ?rs (Suc ?n) = None"
    by (simp_all add: map_of_eq_None_iff)
  have l2: "map_of (?rs @ [(?n, f1), (Suc ?n, f2)]) (Suc ?n) = Some f2"
    by (simp add: map_of_append map_add_def none)
  have l1: "map_of (drop_read (Suc ?n) (?rs @ [(?n, f1), (Suc ?n, f2)])) ?n = Some f1"
    by (simp add: map_of_drop_read map_of_append map_add_def none)
  show ?thesis
    using assms(2,3) l1 l2
    by (simp add: render_input_def handleFileChange_def fileLoaded_def Let_def drop_read_fst
             image_iff)
qed

theorem reads_race_last_completion_wins_witness:
  "map_option image_mime_type (ia_selected_image (fst (input_run False input_init
     [FileChange (Some \<lparr>file_type = ''image/png''\<rparr>), FileChange (Some \<lparr>file_type = ''image/gif''\<rparr>),
      ReadLoad 1 ''data:image/gif;base64,R0lG'', ReadLoad 0 ''data:image/png;base64,iVBO''])))
   = Some ''image/png''"
  using reads_race_last_completion_wins [OF pending_ok_init,
      of "\<lparr>file_type = ''image/png''\<rparr>" "\<lparr>file_type = ''image/gif''\<rparr>"
         "''data:image/gif;base64,R0lG''" "''data:image/png;base64,iVBO''"]
  by (simp add: js_starts_with_def input_init_def)

subsection \<open>The view agrees with the handlers\<close>

text \<open>
  C20. The send button is enabled exactly when sending does something: for every state
  and loading flag, the button is not disabled (line 127) if and only if a click, and
  equally Enter without Shift, calls \<open>onSend\<close> (line 61); and it shows the active style
  (lines 129--131) exactly when it is enabled.
\<close>

theorem send_button_matches_handler:
  "(\<not> cv_send_disabled (render_input l s) \<longleftrightarrow> (\<exists>p. snd (input_step l s ClickSend) = [OnSend p])) \<and>
   (\<not> cv_send_disabled (render_input l s) \<longleftrightarrow>
      (\<exists>p. snd (input_step l s (KeyDown ''Enter'' False)) = [OnSend p])) \<and>
   (cv_send_class (render_input l s) =
      ''p-2 rounded-xl flex items-center justify-center transition-all '' @
      ''bg-indigo-600 text-white hover:bg-indigo-700 shadow-sm''
    \<longleftrightarrow> \<not> cv_send_disabled (render_input l s))"
  by (simp add: render_input_def handleSend_def handleKeyDown_def Let_def)

end
