(* ===== verification/Controller.thy ===== *)
theory Controller
  imports Gemini
begin

text \<open>
  The Conversation Controller. Its code (\<open>App.tsx\<close>) is not part of the sources under
  \<open>src/\<close>; it is modelled from the spec (sections 4.1, 4.5 and 5): the Message Store is
  the list \<open>app_messages\<close>, appended to and never edited; \<open>app_loading\<close> is the
  \<open>AwaitingResponse\<close> state (and the \<open>isLoading\<close> prop of the composer). A
  submission that passes the guard appends the user message at once and emits the
  request built by \<open>Gemini.build_request\<close> from the history before it; the reply of the
  provider arrives later as its own event and is normalised by
  \<open>Gemini.normalize_response\<close>, as \<open>generateResponse\<close> does.

  Message identifiers are the decimal rendering of a counter (the spec asks only that
  they are never reused); timestamps come with each event from the clock, which the
  reachable states require not to run backwards.
\<close>

record app_state =
  app_messages :: "message list"
  app_loading :: bool
  app_next_id :: nat
  app_clock :: timestamp

datatype app_event =
    Submit user_params timestamp
  | ModelReply provider_response timestamp

datatype app_output =
    SendRequest generate_request
  | SurfaceError gen_error
  | Appended message
  | Rejected
  | Ignored

definition app_init :: app_state where
  "app_init = \<lparr>app_messages = [], app_loading = False, app_next_id = 0, app_clock = 0\<rparr>"

fun event_time :: "app_event \<Rightarrow> timestamp" where
  "event_time (Submit p t) = t"
| "event_time (ModelReply r t) = t"

definition user_message :: "app_state \<Rightarrow> user_params \<Rightarrow> timestamp \<Rightarrow> message" where
  "user_message s p t =
     \<lparr>message_id = dec_string (app_next_id s), message_role = User,
      message_text = params_text p, message_image = map_option image_preview (params_image p),
      message_timestamp = t\<rparr>"

definition model_message :: "app_state \<Rightarrow> string \<Rightarrow> timestamp \<Rightarrow> message" where
  "model_message s reply t =
     \<lparr>message_id = dec_string (app_next_id s), message_role = Model,
      message_text = reply, message_image = None, message_timestamp = t\<rparr>"

text \<open>
  \<open>Idle --submit--> AwaitingResponse\<close>, refused when the text is blank and there is no
  attachment, or when a response is already awaited.
\<close>

definition app_submit :: "app_state \<Rightarrow> user_params \<Rightarrow> timestamp \<Rightarrow> app_state \<times> app_output" where
  "app_submit s p t =
     (if (js_trim (params_text p) = [] \<and> params_image p = None) \<or> app_loading s
      then (s, Rejected)
      else (s\<lparr>app_messages := app_messages s @ [user_message s p t], app_loading := True,
              app_next_id := Suc (app_next_id s), app_clock := t\<rparr>,
            SendRequest (build_request (app_messages s) (params_text p)
                           (Option.bind (params_image p) image_base64))))"

text \<open>
  \<open>AwaitingResponse --success--> Idle\<close> appends the model's message;
  \<open>AwaitingResponse --failure--> Idle\<close> surfaces the error and keeps the user's message.
  A reply with no request outstanding is ignored.
\<close>

definition app_reply :: "app_state \<Rightarrow> provider_response \<Rightarrow> timestamp \<Rightarrow> app_state \<times> app_output" where
  "app_reply s r t =
     (if \<not> app_loading s then (s, Ignored)
      else (case normalize_response r of
              Inl e \<Rightarrow> (s\<lparr>app_loading := False, app_clock := t\<rparr>, SurfaceError e)
            | Inr reply \<Rightarrow>
                (s\<lparr>app_messages := app_messages s @ [model_message s reply t], app_loading := False,
                   app_next_id := Suc (app_next_id s), app_clock := t\<rparr>,
                 Appended (model_message s reply t))))"

fun app_step :: "app_state \<Rightarrow> app_event \<Rightarrow> app_state \<times> app_output" where
  "app_step s (Submit p t) = app_submit s p t"
| "app_step s (ModelReply r t) = app_reply s r t"

inductive app_reachable :: "app_state \<Rightarrow> bool" where
  init: "app_reachable app_init"
| step: "app_reachable s \<Longrightarrow> app_clock s \<le> event_time e \<Longrightarrow> app_reachable (fst (app_step s e))"

subsection \<open>The invariant, one conjunct at a time\<close>

definition message_wf :: "message \<Rightarrow> bool" where
  "message_wf m \<longleftrightarrow> message_text m \<noteq> [] \<or> message_image m \<noteq> None"

definition inv_wf :: "app_state \<Rightarrow> bool" where
  "inv_wf s \<longleftrightarrow> (\<forall>m \<in> set (app_messages s). message_wf m)"

definition inv_ids :: "app_state \<Rightarrow> bool" where
  "inv_ids s \<longleftrightarrow>
     distinct (map message_id (app_messages s)) \<and>
     (\<forall>m \<in> set (app_messages s). \<exists>k < app_next_id s. message_id m = dec_string k)"

definition inv_time :: "app_state \<Rightarrow> bool" where
  "inv_time s \<longleftrightarrow>
     sorted (map message_timestamp (app_messages s)) \<and>
     (\<forall>m \<in> set (app_messages s). message_timestamp m \<le> app_clock s)"

definition inv_turns :: "app_state \<Rightarrow> bool" where
  "inv_turns s \<longleftrightarrow>
     (app_loading s \<longrightarrow> app_messages s \<noteq> [] \<and> message_role (last (app_messages s)) = User) \<and>
     (\<forall>i < length (app_messages s). message_role (app_messages s ! i) = Model \<longrightarrow>
        0 < i \<and> message_role (app_messages s ! (i - 1)) = User \<and>
        message_image (app_messages s ! i) = None)"

definition app_inv :: "app_state \<Rightarrow> bool" where
  "app_inv s \<longleftrightarrow> inv_wf s \<and> inv_ids s \<and> inv_time s \<and> inv_turns s"

declare inv_wf_def [inv_simps] inv_ids_def [inv_simps] inv_time_def [inv_simps]
  inv_turns_def [inv_simps] app_inv_def [inv_simps]

subsection \<open>Each step keeps the invariant\<close>

lemmas step_defs = app_submit_def app_reply_def

lemma user_message_wf:
  "\<not> (js_trim (params_text p) = [] \<and> params_image p = None) \<Longrightarrow> message_wf (user_message s p t)"
  by (auto simp: message_wf_def user_message_def dest: js_trim_nonblank_nonempty)

lemma model_message_wf:
  "normalize_response r = Inr reply \<Longrightarrow> message_wf (model_message s reply t)"
  by (simp add: message_wf_def model_message_def normalize_response_nonempty)

lemma inv_wf_step: "inv_wf s \<Longrightarrow> inv_wf (fst (app_step s e))"
proof (cases e)
  case (Submit p t)
  assume "inv_wf s"
  then show ?thesis using Submit user_message_wf [of p s t]
    by (auto simp: inv_wf_def app_submit_def)
next
  case (ModelReply r t)
  assume "inv_wf s"
  then show ?thesis using ModelReply model_message_wf [of r _ s t]
    by (auto simp: inv_wf_def app_reply_def split: sum.splits)
qed

lemma fresh_id:
  "\<forall>m \<in> set ms. \<exists>k < n. message_id m = dec_string k \<Longrightarrow> dec_string n \<notin> message_id ` set ms"
  by fastforce

lemma inv_ids_step: "inv_ids s \<Longrightarrow> inv_ids (fst (app_step s e))"
proof (cases e)
  case (Submit p t)
  assume inv: "inv_ids s"
  then have "dec_string (app_next_id s) \<notin> message_id ` set (app_messages s)"
    by (simp add: inv_ids_def fresh_id)
  with inv show ?thesis using Submit
    by (fastforce simp: inv_ids_def app_submit_def user_message_def less_Suc_eq)
next
  case (ModelReply r t)
  assume inv: "inv_ids s"
  then have "dec_string (app_next_id s) \<notin> message_id ` set (app_messages s)"
    by (simp add: inv_ids_def fresh_id)
  with inv show ?thesis using ModelReply
    by (fastforce simp: inv_ids_def app_reply_def model_message_def less_Suc_eq split: sum.splits)
qed

lemma inv_time_step:
  "inv_time s \<Longrightarrow> app_clock s \<le> event_time e \<Longrightarrow> inv_time (fst (app_step s e))"
proof (cases e)
  case (Submit p t)
  assume "inv_time s" "app_clock s \<le> event_time e"
  with Submit show ?thesis
    by (fastforce simp: inv_time_def app_submit_def user_message_def sorted_snoc_iff)
next
  case (ModelReply r t)
  assume "inv_time s" "app_clock s \<le> event_time e"
  with ModelReply show ?thesis
    by (fastforce simp: inv_time_def app_reply_def model_message_def sorted_snoc_iff
                  split: sum.splits)
qed

lemma nth_snoc_cases:
  "i < Suc (length xs) \<Longrightarrow> P ((xs @ [x]) ! i) \<longleftrightarrow> (if i < length xs then P (xs ! i) else P x)"
  by (auto simp: nth_append less_Suc_eq)

lemma inv_turns_submit: "inv_turns s \<Longrightarrow> inv_turns (fst (app_submit s p t))"
  by (auto simp: inv_turns_def app_submit_def user_message_def nth_append less_Suc_eq)

lemma last_role_prev:
  "ms \<noteq> [] \<Longrightarrow> message_role (last ms) = User \<Longrightarrow>
     message_role ((ms @ [m]) ! (length ms - 1)) = User"
  by (simp add: nth_append last_conv_nth)

lemma inv_turns_reply: "inv_turns s \<Longrightarrow> inv_turns (fst (app_reply s r t))"
proof (cases "app_loading s")
  case True
  assume inv: "inv_turns s"
  with True have ne: "app_messages s \<noteq> []" and lst: "message_role (last (app_messages s)) = User"
    by (auto simp: inv_turns_def)
  show ?thesis
  proof (cases "normalize_response r")
    case (Inl e)
    with inv True show ?thesis by (simp add: inv_turns_def app_reply_def)
  next
    case (Inr reply)
    have prev: "message_role ((app_messages s @ [model_message s reply t]) ! (length (app_messages s) - 1)) = User"
      using ne lst by (rule last_role_prev)
    from inv True Inr ne prev show ?thesis
      by (auto simp: inv_turns_def app_reply_def model_message_def nth_append less_Suc_eq)
  qed
next
  case False
  assume "inv_turns s"
  with False show ?thesis by (simp add: app_reply_def)
qed

lemma inv_turns_step: "inv_turns s \<Longrightarrow> inv_turns (fst (app_step s e))"
  by (cases e) (simp_all add: inv_turns_submit inv_turns_reply)

lemma app_inv_init: "app_inv app_init"
  by (simp add: app_inv_def inv_wf_def inv_ids_def inv_time_def inv_turns_def app_init_def)

lemma app_inv_step:
  "app_inv s \<Longrightarrow> app_clock s \<le> event_time e \<Longrightarrow> app_inv (fst (app_step s e))"
  by (simp add: app_inv_def inv_wf_step inv_ids_step inv_time_step inv_turns_step)

lemma app_reachable_inv: "app_reachable s \<Longrightarrow> app_inv s"
proof (induction rule: app_reachable.induct)
  case init
  show ?case by (rule app_inv_init)
next
  case (step s e)
  then show ?case by (simp add: app_inv_step)
qed

lemma app_reachable_submit_init:
  "app_reachable (fst (app_step app_init (Submit p t)))"
  by (rule app_reachable.step [OF app_reachable.init]) (simp add: app_init_def)

lemma app_step_messages:
  "\<exists>ms. app_messages (fst (app_step s e)) = app_messages s @ ms \<and> length ms \<le> 1"
proof (cases e)
  case (Submit p t)
  then show ?thesis
    by (cases "(js_trim (params_text p) = [] \<and> params_image p = None) \<or> app_loading s")
       (auto simp: app_submit_def)
next
  case (ModelReply r t)
  then show ?thesis
    by (cases "app_loading s") (auto simp: app_reply_def split: sum.splits)
qed

subsection \<open>Properties of the controller\<close>

text \<open>
  C19. In every reachable state, while a response is awaited the last stored message is
  the user's, and every model message directly follows a user message and carries no
  image: the conversation alternates as the state machine of spec 4.5 prescribes.
\<close>

theorem reachable_turns:
  assumes "app_reachable s"
  shows "(app_loading s \<longrightarrow> app_messages s \<noteq> [] \<and> message_role (last (app_messages s)) = User) \<and>
         (\<forall>i < length (app_messages s). message_role (app_messages s ! i) = Model \<longrightarrow>
            0 < i \<and> message_role (app_messages s ! (i - 1)) = User \<and>
            message_image (app_messages s ! i) = None)"
  using app_reachable_inv [OF assms] by (simp add: app_inv_def inv_turns_def)

theorem reachable_turns_witness:
  "app_messages (fst (app_step app_init (Submit \<lparr>params_text = ''q'', params_image = None\<rparr> 1))) \<noteq> [] \<and>
   message_role (last (app_messages
     (fst (app_step app_init (Submit \<lparr>params_text = ''q'', params_image = None\<rparr> 1))))) = User"
proof -
  have l: "app_loading (fst (app_step app_init (Submit \<lparr>params_text = ''q'', params_image = None\<rparr> 1)))"
    by (simp add: app_submit_def app_init_def js_trim_def js_whitespace_def js_line_terminator_def)
  show ?thesis using reachable_turns [OF app_reachable_submit_init] l by blast
qed

text \<open>
  C21. In every reachable state every stored message has a non-empty text or an image,
  the Message invariant of spec section 3.
\<close>

theorem reachable_messages_wf:
  assumes "app_reachable s" and "m \<in> set (app_messages s)"
  shows "\<not> (message_text m = [] \<and> message_image m = None)"
  using app_reachable_inv [OF assms(1)] assms(2)
  by (auto simp: app_inv_def inv_wf_def message_wf_def)

theorem reachable_messages_wf_witness:
  "\<not> (message_text (user_message app_init \<lparr>params_text = ''q'', params_image = None\<rparr> 1) = [] \<and>
     message_image (user_message app_init \<lparr>params_text = ''q'', params_image = None\<rparr> 1) = None)"
proof -
  have "user_message app_init \<lparr>params_text = ''q'', params_image = None\<rparr> 1 \<in>
      set (app_messages (fst (app_step app_init (Submit \<lparr>params_text = ''q'', params_image = None\<rparr> 1))))"
    by (simp add: app_submit_def app_init_def js_trim_def js_whitespace_def js_line_terminator_def)
  then show ?thesis by (rule reachable_messages_wf [OF app_reachable_submit_init])
qed

text \<open>
  C22. After a failed turn the conversation stays usable (spec section 7): the controller
  is idle, the store holds the user's message of the failed turn, and re-submitting the
  same input is accepted. The retry's request resends the failed message in the history
  and the same input again as the new turn, so it ends with two consecutive user turns.
\<close>

theorem retry_after_failure:
  assumes "\<not> app_loading s" and "\<not> (js_trim (params_text p) = [] \<and> params_image p = None)"
  shows "let s1 = fst (app_step s (Submit p t));
             s2 = fst (app_step s1 (ModelReply (ProviderFailure c) t'));
             img = Option.bind (params_image p) image_base64
         in \<not> app_loading s2 \<and>
            app_messages s2 = app_messages s @ [user_message s p t] \<and>
            snd (app_step s2 (Submit p t'')) =
              SendRequest (build_request (app_messages s @ [user_message s p t]) (params_text p) img) \<and>
            map item_role (drop (length (app_messages s))
              (req_contents (build_request (app_messages s @ [user_message s p t]) (params_text p) img)))
              = [User, User]"
  using assms
  by (simp add: Let_def app_submit_def app_reply_def build_request_def formatHistory_def
                format_message_def user_message_def new_content_def)

theorem retry_after_failure_witness:
  "snd (app_step (fst (app_step (fst (app_step app_init (Submit \<lparr>params_text = ''q'', params_image = None\<rparr> 1)))
      (ModelReply (ProviderFailure ''offline'') 2))) (Submit \<lparr>params_text = ''q'', params_image = None\<rparr> 3))
   = SendRequest (build_request [user_message app_init \<lparr>params_text = ''q'', params_image = None\<rparr> 1] ''q'' None)"
proof -
  have "\<not> app_loading app_init" by (simp add: app_init_def)
  moreover have "\<not> (js_trim (params_text \<lparr>params_text = ''q'', params_image = None\<rparr>) = [] \<and>
      params_image \<lparr>params_text = ''q'', params_image = None\<rparr> = None)"
    by (simp add: js_trim_def js_whitespace_def js_line_terminator_def)
  ultimately show ?thesis
    using retry_after_failure [of app_init "\<lparr>params_text = ''q'', params_image = None\<rparr>" 1 "''offline''" 2 3]
    by (simp add: Let_def app_init_def)
qed

text \<open>
  C23. The Message Store is append-only: a step keeps every stored message in place and
  adds at most one at the end.
\<close>

theorem app_step_append_only:
  "prefix (app_messages s) (app_messages (fst (app_step s e))) \<and>
   length (app_messages (fst (app_step s e))) \<le> Suc (length (app_messages s))"
proof -
  obtain ms where "app_messages (fst (app_step s e)) = app_messages s @ ms" "length ms \<le> 1"
    using app_step_messages by blast
  then show ?thesis by simp
qed

text \<open>
  C24. While a response is awaited, a submission is refused and changes nothing: at most
  one request is outstanding.
\<close>

theorem submit_while_loading_noop:
  assumes "app_loading s"
  shows "app_step s (Submit p t) = (s, Rejected)"
  using assms by (simp add: app_submit_def)

theorem submit_while_loading_noop_witness:
  "app_step (app_init\<lparr>app_loading := True\<rparr>) (Submit \<lparr>params_text = ''again'', params_image = None\<rparr> 2)
     = (app_init\<lparr>app_loading := True\<rparr>, Rejected)"
  by (rule submit_while_loading_noop) simp

text \<open>
  C25. A submission with a blank text and no attachment is refused and changes nothing.
\<close>

theorem submit_blank_noop:
  assumes "js_trim (params_text p) = []" and "params_image p = None"
  shows "app_step s (Submit p t) = (s, Rejected)"
  using assms by (simp add: app_submit_def)

theorem submit_blank_noop_witness:
  "app_step app_init (Submit \<lparr>params_text = ''  '', params_image = None\<rparr> 3) = (app_init, Rejected)"
  by (rule submit_blank_noop) (simp_all add: js_trim_def js_whitespace_def)

text \<open>
  C26. An accepted submission stores the user's message at once and moves to awaiting;
  the request it emits carries the earlier messages followed by the new turn, so the new
  message is sent exactly once, as the last turn.
\<close>

theorem submit_accepted:
  assumes "\<not> app_loading s" and "js_trim (params_text p) \<noteq> [] \<or> params_image p \<noteq> None"
  shows "app_messages (fst (app_step s (Submit p t))) = app_messages s @ [user_message s p t] \<and>
         app_loading (fst (app_step s (Submit p t))) \<and>
         (\<exists>req. snd (app_step s (Submit p t)) = SendRequest req \<and>
            butlast (req_contents req) = formatHistory (app_messages s) \<and>
            last (req_contents req) =
              new_content (params_text p) (Option.bind (params_image p) image_base64) \<and>
            length (req_contents req) = length (app_messages (fst (app_step s (Submit p t)))))"
  using assms by (auto simp: app_submit_def build_request_def)

theorem submit_accepted_witness:
  "app_messages (fst (app_step app_init (Submit \<lparr>params_text = ''q'', params_image = None\<rparr> 1)))
     = [user_message app_init \<lparr>params_text = ''q'', params_image = None\<rparr> 1]"
proof -
  have "\<not> app_loading app_init" by (simp add: app_init_def)
  moreover have "js_trim (params_text \<lparr>params_text = ''q'', params_image = None\<rparr>) \<noteq> [] \<or>
      params_image \<lparr>params_text = ''q'', params_image = None\<rparr> \<noteq> None"
    by (simp add: js_trim_def js_whitespace_def js_line_terminator_def)
  ultimately show ?thesis using submit_accepted by (simp add: app_init_def)
qed

text \<open>
  C27. A provider failure while awaiting returns to idle and surfaces a
  \<open>ModelInvocationError\<close> with the cause; the stored messages, including the user's
  message of the failed turn, are unchanged.
\<close>

theorem reply_failure:
  assumes "app_loading s"
  shows "app_step s (ModelReply (ProviderFailure c) t) =
           (s\<lparr>app_loading := False, app_clock := t\<rparr>, SurfaceError (ModelInvocationError c))"
  using assms by (simp add: app_reply_def)

theorem reply_failure_witness:
  "app_step (app_init\<lparr>app_loading := True\<rparr>) (ModelReply (ProviderFailure ''timeout'') 4) =
     (app_init\<lparr>app_loading := False, app_clock := 4\<rparr>, SurfaceError (ModelInvocationError ''timeout''))"
  using reply_failure [of "app_init\<lparr>app_loading := True\<rparr>" "''timeout''" 4] by simp

text \<open>
  C28. A successful reply while awaiting appends one model message, without image, whose
  text is the reply's text, or the fixed apology when the reply has no text or an empty
  one; the controller returns to idle.
\<close>

theorem reply_success:
  assumes "app_loading s"
  shows "app_messages (fst (app_step s (ModelReply (ProviderSuccess x) t))) =
           app_messages s @ [\<lparr>message_id = dec_string (app_next_id s), message_role = Model,
             message_text = (if x = None \<or> x = Some [] then FALLBACK_REPLY else the x),
             message_image = None, message_timestamp = t\<rparr>] \<and>
         \<not> app_loading (fst (app_step s (ModelReply (ProviderSuccess x) t)))"
  using assms by (auto simp: app_reply_def model_message_def split: option.splits)

theorem reply_success_witness:
  "app_messages (fst (app_step (app_init\<lparr>app_loading := True\<rparr>) (ModelReply (ProviderSuccess (Some [])) 5)))
     = [\<lparr>message_id = dec_string 0, message_role = Model, message_text = FALLBACK_REPLY,
         message_image = None, message_timestamp = 5\<rparr>]"
  using reply_success [of "app_init\<lparr>app_loading := True\<rparr>" "Some []" 5] by (simp add: app_init_def)


end
