(* ===== verification/ChatMessage.thy ===== *)
theory ChatMessage
  imports Gemini
begin

text \<open>
  \<open>src/components/ChatMessage.tsx\<close>: the rendering of one stored message as a chat
  bubble. The component is a pure function of its \<open>message\<close> prop; the model returns
  the decisions the JSX makes, as a record \<open>bubble_view\<close>: the class strings of the
  row, of the inner row, of the avatar and of the bubble (each the template literal of
  the source, with the \<open>isModel\<close> choice written out), the avatar icon, the source of
  the \<open><img>\<close> element when one is rendered, the class of the prose container and the
  markdown source. \<open>message.image && (...)\<close> renders nothing for \<open>undefined\<close> and
  for the empty string, which React does not display.

  The lemmas relate the bubble to the request builder: for the same stored message, the
  image the bubble shows is exactly the image \<open>formatHistory\<close> sends, and the text the
  bubble renders is sent exactly when it is non-empty.
\<close>

datatype avatar_icon = BotIcon | UserIcon

record bubble_view =
  view_row_class :: string
  view_inner_class :: string
  view_avatar_class :: string
  view_avatar :: avatar_icon
  view_bubble_class :: string
  view_image :: "string option"
  view_prose_class :: string
  view_markdown :: string

text \<open>Lines 49--53: the class of a \<open><code>\<close> element of the rendered markdown.\<close>

definition code_class :: "bool \<Rightarrow> string" where
  "code_class inline =
     (if inline then ''bg-black/10 px-1 py-0.5 rounded font-mono text-sm''
      else ''block bg-black/5 p-2 rounded-lg overflow-x-auto'')"

text \<open>Lines 10--63.\<close>

definition render_message :: "message \<Rightarrow> bubble_view" where
  "render_message message =
     (let isModel = (message_role message = Model)
      in \<lparr>view_row_class =
            ''flex w-full '' @ (if isModel then ''justify-start'' else ''justify-end''),
          view_inner_class =
            ''flex max-w-[85%] sm:max-w-[75%] '' @
            (if isModel then ''flex-row'' else ''flex-row-reverse'') @ '' items-start gap-3'',
          view_avatar_class =
            ''flex-shrink-0 w-8 h-8 rounded-full flex items-center justify-center '' @
            (if isModel then ''bg-indigo-100 text-indigo-600'' else ''bg-slate-200 text-slate-600''),
          view_avatar = (if isModel then BotIcon else UserIcon),
          view_bubble_class =
            ''flex flex-col space-y-2 p-4 rounded-2xl shadow-sm '' @
            (if isModel then ''bg-white border border-slate-100 rounded-tl-none text-slate-800''
             else ''bg-indigo-600 text-white rounded-tr-none''),
          view_image =
            (case message_image message of
               Some img \<Rightarrow> if img \<noteq> [] then Some img else None
             | None \<Rightarrow> None),
          view_prose_class =
            ''prose prose-sm max-w-none break-words leading-relaxed '' @
            (if isModel then ''prose-slate'' else ''prose-invert''),
          view_markdown = message_text message\<rparr>)"

fun is_inline_part :: "part \<Rightarrow> bool" where
  "is_inline_part (InlineDataPart mt d) = True"
| "is_inline_part (TextPart t) = False"

subsection \<open>Lemmas\<close>

lemma render_message_image:
  "view_image (render_message m) =
     (case message_image m of Some img \<Rightarrow> if img \<noteq> [] then Some img else None | None \<Rightarrow> None)"
  by (simp add: render_message_def Let_def)

lemma render_message_markdown [simp]: "view_markdown (render_message m) = message_text m"
  by (simp add: render_message_def Let_def)

lemma image_part_is_inline [simp]: "is_inline_part (image_part_of_data_url img)"
  by (simp add: image_part_of_data_url_def Let_def)

lemma format_message_inline_parts:
  "filter is_inline_part (item_parts (format_message m)) =
     (case message_image m of
        Some img \<Rightarrow> if img \<noteq> [] then [image_part_of_data_url img] else []
      | None \<Rightarrow> [])"
  by (simp add: format_message_def split: option.splits)

lemma format_message_text_parts:
  "filter (Not \<circ> is_inline_part) (item_parts (format_message m)) =
     (if message_text m \<noteq> [] then [TextPart (message_text m)] else [])"
  by (simp add: format_message_def image_part_of_data_url_def Let_def split: option.splits)

subsection \<open>The bubble and the request agree\<close>

text \<open>
  C38. For every stored message, the display and the request are two views of the same
  data: the inline parts \<open>formatHistory\<close> sends for it are exactly the projection of
  the image the bubble shows (none when the bubble shows none), and its text parts are
  exactly the text the bubble renders, when that text is non-empty.
\<close>

theorem bubble_matches_request:
  "filter is_inline_part (item_parts (format_message m)) =
     (case view_image (render_message m) of
        Some src \<Rightarrow> [image_part_of_data_url src]
      | None \<Rightarrow> []) \<and>
   filter (Not \<circ> is_inline_part) (item_parts (format_message m)) =
     (if view_markdown (render_message m) \<noteq> []
      then [TextPart (view_markdown (render_message m))] else [])"
  by (simp add: format_message_inline_parts format_message_text_parts render_message_image
           split: option.splits)

end
