(* ===== verification/Spec2Isabelle.thy ===== *)
theory Spec2Isabelle
  imports InputArea Controller ChatMessage
begin

text \<open>
  \<^bold>\<open>A verification model of the EmpireX Socratic math tutor front end.\<close>

  \<^medskip>\<^bold>\<open>The program.\<close> A React chat front end for a generative model. The composer
  (\<open>src/components/InputArea.tsx\<close>) holds the text being typed and an attached image,
  read from a file into a data URL (the Attachment Codec). On send it calls \<open>onSend\<close>
  of the application shell \<open>App.tsx\<close> (the Conversation Controller), which stores the
  user's message, builds the request from the stored history
  (\<open>src/services/gemini.ts\<close>, \<open>formatHistory\<close> and \<open>generateResponse\<close>: the
  Request Builder and the Model Client) and, when the provider answers, stores the
  model's message. \<open>src/types.ts\<close> and \<open>src/constants.ts\<close> hold the data model and
  the fixed settings; \<open>ChatMessage.tsx\<close> and \<open>Header.tsx\<close> only render.

  \<^medskip>\<^bold>\<open>The theories.\<close>
  \<^item> \<open>Prelude\<close>: the collections \<open>js_simps\<close> and \<open>inv_simps\<close>, JavaScript array
    reads (\<open>js_index\<close>, \<open>undefined\<close> as \<open>None\<close>), the decimal rendering of counters
    with its round trip, list lemmas.
  \<^item> \<open>JsString\<close>: the string builtins the code calls, each a structural recursion:
    \<open>split\<close>/\<open>join\<close> with one-character separators, \<open>trim\<close> with ECMAScript white
    space, \<open>startsWith\<close>, and the regular expression \<open>/:(.*?);/\<close> with its
    leftmost, lazy, line-terminator-aware semantics. Properties: \<open>split\<close> is the unique
    decomposition into separator-free segments (C35), its segment count (C36), and an
    exact characterisation of what the regular expression captures (C37); lemmas give
    the blank \<open>trim\<close> and the match on a data-URL header.
  \<^item> \<open>Model_Types\<close>: \<open>types.ts\<close> as records and datatypes (\<open>message\<close>,
    \<open>image_data\<close>, \<open>user_params\<close>, \<open>part\<close>, \<open>history_item\<close>) and
    \<open>constants.ts\<close> (\<open>MODEL_ID\<close>, \<open>SYSTEM_INSTRUCTION\<close> character for character).
  \<^item> \<open>Gemini\<close>: \<open>format_message\<close>/\<open>formatHistory\<close> (lines 11--43),
    \<open>new_parts\<close>/\<open>new_content\<close> (lines 63--85), \<open>build_request\<close> (the argument of
    \<open>generateContent\<close>), \<open>normalize_response\<close> (line 100 and the catch) and
    \<open>generateResponse\<close>. The network call is a parameter \<open>provider\<close>; all lemmas
    hold for every provider. Properties C1--C10, and C39: every request is well formed
    part by part.
  \<^item> \<open>InputArea\<close>: the composer's state, one function per handler
    (\<open>handleSend\<close>, \<open>handleKeyDown\<close>, \<open>clearImage\<close>, \<open>handleFileChange\<close> split at
    its \<open>await\<close> into \<open>handleFileChange\<close> and the completions \<open>fileLoaded\<close> /
    \<open>fileReadFailed\<close>), the event dispatch \<open>input_step\<close>, the JSX as a view
    (\<open>render_input\<close>, \<open>composer_view\<close>) from which the deliverable events are
    read, and runs. Reads in flight are numbered by the model (\<open>ia_pending_reads\<close>,
    \<open>ia_next_read\<close>): the source has no such numbers, but each completion belongs to
    the \<open>FileReader\<close> of one change event, and the numbers name that pairing.
    Properties C11--C18 and C20: the send guard, the codec, that the composer holds
    exactly the images of accepted files (C16), the interleavings of the asynchronous read
    (C17, C18) for every state, and that the send button is enabled exactly when sending
    does something (C20).
  \<^item> \<open>Controller\<close>: \<open>App.tsx\<close> is not among the sources, so the controller is
    modelled from the spec (4.1, 4.5, 5): a step function over submissions and provider
    replies, an inductive set of reachable states, and an invariant in four conjuncts
    (well-formed messages, fresh identifiers, chronological timestamps, alternation of
    turns), each kept by every step and together proved by rule induction. Identifiers
    (a counter) and the clock (non-decreasing, as spec 3 requires) are choices of this
    model, so no property is claimed of them alone. Properties C19, C21--C28: among them,
    after a failed turn the conversation is usable for a retry, whose request carries the
    failed question twice (C22).
  \<^item> \<open>ChatMessage\<close>: \<open>ChatMessage.tsx\<close> as a function from a message to the
    decisions of its JSX (\<open>render_message\<close>, \<open>bubble_view\<close>). Property C38: the
    bubble and the request are two views of the same data.
  \<^item> This theory: the wiring of composer and controller (\<open>sys_step\<close>: the composer's
    \<open>isLoading\<close> is the controller's \<open>app_loading\<close>, its \<open>onSend\<close> is the
    controller's submission), the spec's atomic user turn (\<open>spec_turn\<close>, over the
    messages read as (role, text, image) triples), and the properties that span
    components: at most one request is outstanding along any run (C29); the composer never
    submits what the controller refuses (C30); the two-phase controller refines
    \<open>spec_turn\<close> (C31); the media type of an attachment changes between its first
    sending and its resending (C32); from any idle front end a zero-byte image yields a
    turn with no parts (C33) and an image attached with no text is sent as a single
    inline part (C34, the spec's scenario). It also defines the reachable states of the
    whole front end (\<open>sys_reachable\<close>), shows that both components' invariants hold in
    them jointly, and proves C40: the front end never deadlocks, since any provider
    answer returns it to an idle state from which a non-blank message is sent by one
    click.

  \<^medskip>\<^bold>\<open>Choices of the model.\<close> Strings are \<open>string\<close> over the 8-bit \<open>char\<close>; code
  points above 255 of JavaScript's UTF-16 strings are not represented, and white space
  and line terminators are those of ECMAScript within that range. A value TypeScript
  types as \<open>string\<close> but that can be \<open>undefined\<close> at run time (\<open>split(',')[1]\<close>) is a
  \<open>string option\<close>. Truthiness is written out (\<open>s \<noteq> []\<close>). No loop of the code
  needs fuel: every recursion is structural. Asynchrony is made explicit as separate
  events; React re-renders between discrete user events, so each handler sees the state
  the previous one left. The browser's file reader and the model provider are
  parameters of events, not functions of the model.

  \<^medskip>\<^bold>\<open>Not modelled.\<close> \<open>Header.tsx\<close> (static markup without props, state or
  conditions), the markdown renderer (a library; only the class of its code elements is
  modelled), the static classes and texts of the composer's layout (only its
  state-dependent decisions are in \<open>render_input\<close>), the construction of the SDK
  client and the API key (\<open>gemini.ts\<close> line 6), logging beyond the \<open>LogError\<close>
  effect, and the contents of the provider's answers.

  \<^medskip>\<^bold>\<open>Further work.\<close> The media-type fallbacks of \<open>mime_of_header\<close> for every
  header shape, and traces of the whole front end that start from the initial page and
  exercise each finding.

  \<^medskip>\<^bold>\<open>Findings the lemmas record.\<close> The new turn always declares \<open>image/jpeg\<close>
  while the resent history declares the file's type (C4, C32, C34); the history places
  text before image and the new turn image before text (C2, C4); a stored reference
  without a comma is sent with undefined data rather than rejected (C9); an empty image
  payload with an empty text produces a turn with no parts (C5, C33); a send does not
  wait for a read in flight, contrary to spec section 5, and concurrent reads race
  (C17, C18); a rejected non-image file stays in the file input (C14); a retry after a
  failure sends the failed question twice, as consecutive user turns (C22).
\<close>

subsection \<open>Wiring of composer and controller\<close>

text \<open>
  \<open>App.tsx\<close> renders \<open><InputArea onSend={..} isLoading={..}/>\<close>: every
  \<open>OnSend\<close> effect of the composer is a submission to the controller at the time of the
  user event, and the composer sees the controller's \<open>app_loading\<close>.
\<close>

record system =
  sys_ui :: input_state
  sys_app :: app_state

datatype sys_event =
    UiEvent input_event timestamp
  | ProviderEvent provider_response timestamp

fun deliver :: "app_state \<Rightarrow> timestamp \<Rightarrow> input_effect list \<Rightarrow> app_state \<times> app_output list" where
  "deliver a t [] = (a, [])"
| "deliver a t (OnSend p # es) =
     (let (a', out) = app_submit a p t; (a'', outs) = deliver a' t es in (a'', out # outs))"
| "deliver a t (Alert m # es) = deliver a t es"
| "deliver a t (LogError m # es) = deliver a t es"

fun sys_step :: "system \<Rightarrow> sys_event \<Rightarrow> system \<times> app_output list" where
  "sys_step s (UiEvent e t) =
     (let (ui', effs) = input_step (app_loading (sys_app s)) (sys_ui s) e;
          (a', outs) = deliver (sys_app s) t effs
      in (\<lparr>sys_ui = ui', sys_app = a'\<rparr>, outs))"
| "sys_step s (ProviderEvent r t) =
     (let (a', out) = app_reply (sys_app s) r t in (s\<lparr>sys_app := a'\<rparr>, [out]))"

fun sys_run :: "system \<Rightarrow> sys_event list \<Rightarrow> system \<times> app_output list" where
  "sys_run s [] = (s, [])"
| "sys_run s (e # es) =
     (let (s', outs) = sys_step s e; (s'', outs') = sys_run s' es in (s'', outs @ outs'))"

definition sys_init :: system where
  "sys_init = \<lparr>sys_ui = input_init, sys_app = app_init\<rparr>"

fun sys_event_time :: "sys_event \<Rightarrow> timestamp" where
  "sys_event_time (UiEvent e t) = t"
| "sys_event_time (ProviderEvent r t) = t"

text \<open>
  The reachable states of the whole front end: any interleaving of user events and
  provider answers from the initial page, with a clock that does not run backwards.
\<close>

inductive sys_reachable :: "system \<Rightarrow> bool" where
  init: "sys_reachable sys_init"
| step: "sys_reachable s \<Longrightarrow> app_clock (sys_app s) \<le> sys_event_time e \<Longrightarrow>
           sys_reachable (fst (sys_step s e))"

fun is_request :: "app_output \<Rightarrow> bool" where
  "is_request (SendRequest req) = True"
| "is_request (SurfaceError e) = False"
| "is_request (Appended m) = False"
| "is_request Rejected = False"
| "is_request Ignored = False"

fun is_provider_event :: "sys_event \<Rightarrow> bool" where
  "is_provider_event (UiEvent e t) = False"
| "is_provider_event (ProviderEvent r t) = True"

subsection \<open>The conversation as the spec states it\<close>

text \<open>
  Spec sections 3, 4.4 and 4.5 describe one user turn as a single step on the sequence
  of messages, seen as (role, text, image) triples: the user's message is appended; if
  the provider fails, nothing else is and the failure is reported with its cause; if it
  answers, a model message with its text, or with the fixed apology when there is no
  usable text, is appended. \<open>spec_turn\<close> states this without the Model Client's
  code; \<open>abs_messages\<close> and \<open>abs_output\<close> read the controller's state and output
  at that level.
\<close>

type_synonym abs_message = "role \<times> string \<times> string option"

datatype turn_result = TurnReply string | TurnFailed string

definition abs_messages :: "app_state \<Rightarrow> abs_message list" where
  "abs_messages s = map (\<lambda>m. (message_role m, message_text m, message_image m)) (app_messages s)"

fun abs_output :: "app_output \<Rightarrow> turn_result option" where
  "abs_output (SurfaceError (ModelInvocationError c)) = Some (TurnFailed c)"
| "abs_output (Appended m) = Some (TurnReply (message_text m))"
| "abs_output (SendRequest req) = None"
| "abs_output Rejected = None"
| "abs_output Ignored = None"

definition spec_turn ::
  "abs_message list \<Rightarrow> user_params \<Rightarrow> provider_response \<Rightarrow> abs_message list \<times> turn_result" where
  "spec_turn h p r =
     (let u = (User, params_text p, map_option image_preview (params_image p))
      in case r of
           ProviderFailure c \<Rightarrow> (h @ [u], TurnFailed c)
         | ProviderSuccess (Some x) \<Rightarrow>
             if x = [] then (h @ [u, (Model, FALLBACK_REPLY, None)], TurnReply FALLBACK_REPLY)
             else (h @ [u, (Model, x, None)], TurnReply x)
         | ProviderSuccess None \<Rightarrow>
             (h @ [u, (Model, FALLBACK_REPLY, None)], TurnReply FALLBACK_REPLY))"

subsection \<open>Lemmas\<close>

lemma deliver_no_send:
  "(\<forall>p. OnSend p \<notin> set effs) \<Longrightarrow> deliver a t effs = (a, [])"
proof (induction effs)
  case Nil
  then show ?case by simp
next
  case (Cons x effs)
  then show ?case by (cases x) auto
qed

lemma submit_guard_accepts:
  "\<not> app_loading a \<Longrightarrow> js_trim (params_text p) \<noteq> [] \<or> params_image p \<noteq> None \<Longrightarrow>
     snd (app_submit a p t) \<noteq> Rejected"
  by (auto simp: app_submit_def)

lemma sys_step_ui:
  "sys_step s (UiEvent e t) =
     (\<lparr>sys_ui = fst (input_step (app_loading (sys_app s)) (sys_ui s) e),
       sys_app = fst (deliver (sys_app s) t (snd (input_step (app_loading (sys_app s)) (sys_ui s) e)))\<rparr>,
      snd (deliver (sys_app s) t (snd (input_step (app_loading (sys_app s)) (sys_ui s) e))))"
  by (simp add: case_prod_beta)

lemma app_submit_requests:
  "(\<not> is_request (snd (app_submit a q t)) \<and> fst (app_submit a q t) = a) \<or>
   (is_request (snd (app_submit a q t)) \<and> \<not> app_loading a \<and> app_loading (fst (app_submit a q t)))"
  by (simp add: app_submit_def)

lemma app_reply_no_request: "\<not> is_request (snd (app_reply a r t))"
  by (simp add: app_reply_def split: sum.splits)

lemma ui_step_requests:
  "(filter is_request (snd (sys_step s (UiEvent e t))) = [] \<and>
      app_loading (sys_app (fst (sys_step s (UiEvent e t)))) = app_loading (sys_app s)) \<or>
   (length (filter is_request (snd (sys_step s (UiEvent e t)))) = 1 \<and>
      \<not> app_loading (sys_app s) \<and> app_loading (sys_app (fst (sys_step s (UiEvent e t)))))"
proof (cases "\<exists>p. OnSend p \<in> set (snd (input_step (app_loading (sys_app s)) (sys_ui s) e))")
  case True
  then obtain p where "OnSend p \<in> set (snd (input_step (app_loading (sys_app s)) (sys_ui s) e))" by blast
  from input_step_sends [OF this]
  have effs: "snd (input_step (app_loading (sys_app s)) (sys_ui s) e) =
      [OnSend \<lparr>params_text = ia_text (sys_ui s), params_image = ia_selected_image (sys_ui s)\<rparr>]"
    by blast
  show ?thesis
    using app_submit_requests [of "sys_app s"
        "\<lparr>params_text = ia_text (sys_ui s), params_image = ia_selected_image (sys_ui s)\<rparr>" t]
    unfolding sys_step_ui by (auto simp: effs case_prod_beta)
next
  case False
  then show ?thesis unfolding sys_step_ui by (simp add: deliver_no_send)
qed

text \<open>
  A composer in an idle front end with an empty text box: choosing an image file, its
  read completing with the data URL \<open>d\<close>, and clicking send submits the codec's
  attachment alone.
\<close>

lemma attach_then_send:
  assumes idle: "\<not> app_loading (sys_app s)" and ok: "pending_ok (sys_ui s)"
    and blank: "ia_text (sys_ui s) = []" and img: "js_starts_with (file_type f) ''image/''"
  shows "sys_run s [UiEvent (FileChange (Some f)) t1,
                    UiEvent (ReadLoad (ia_next_read (sys_ui s)) d) t2, UiEvent ClickSend t3] =
           (\<lparr>sys_ui = (sys_ui s)\<lparr>ia_text := [], ia_selected_image := None, ia_file_input := None,
                           ia_next_read := Suc (ia_next_read (sys_ui s))\<rparr>,
             sys_app = fst (app_submit (sys_app s) \<lparr>params_text = [], params_image = Some (loaded_image f d)\<rparr> t3)\<rparr>,
            [SendRequest (build_request (app_messages (sys_app s)) [] (js_index (js_split CHR '','' d) 1))])"
proof -
  from ok have "ia_next_read (sys_ui s) \<notin> fst ` set (ia_pending_reads (sys_ui s))"
    by (auto simp: pending_ok_def)
  then have look: "map_of (ia_pending_reads (sys_ui s) @ [(ia_next_read (sys_ui s), f)])
      (ia_next_read (sys_ui s)) = Some f"
    by (rule map_of_snoc_fresh)
  have fresh: "drop_read (ia_next_read (sys_ui s)) (ia_pending_reads (sys_ui s) @ [(ia_next_read (sys_ui s), f)])
      = ia_pending_reads (sys_ui s)"
    using ok by (auto simp: pending_ok_def drop_read_def filter_id_conv)
  show ?thesis
    using idle blank img look fresh
    by (simp add: handleFileChange_def fileLoaded_def handleSend_def app_submit_def Let_def)
qed

subsection \<open>Properties that span components\<close>

text \<open>
  C29. At most one request is outstanding (spec section 5): along any run of the front end
  from any state, the requests sent never outnumber the provider answers delivered by
  more than one, and not at all when a request is already outstanding. The composer's
  disabled controls and the controller's guard each enforce it; both rely on an accepted
  submission setting \<open>isLoading\<close>.
\<close>

theorem at_most_one_request_outstanding:
  "length (filter is_request (snd (sys_run s es))) \<le>
     (if app_loading (sys_app s) then 0 else 1) + length (filter is_provider_event es)"
proof (induction es arbitrary: s)
  case Nil
  show ?case by simp
next
  case (Cons e es)
  obtain s' outs where st: "sys_step s e = (s', outs)" by fastforce
  have run: "snd (sys_run s (e # es)) = outs @ snd (sys_run s' es)"
    using st by (simp add: case_prod_beta)
  have IH: "length (filter is_request (snd (sys_run s' es))) \<le>
      (if app_loading (sys_app s') then 0 else 1) + length (filter is_provider_event es)"
    by (rule Cons.IH)
  show ?case
  proof (cases e)
    case (UiEvent ev t)
    with ui_step_requests [of s ev t] st IH run show ?thesis by auto
  next
    case (ProviderEvent r t)
    with st have "outs = [snd (app_reply (sys_app s) r t)]" by (simp add: case_prod_beta)
    with app_reply_no_request IH run ProviderEvent show ?thesis by (simp split: if_splits)
  qed
qed

text \<open>
  C30. The composer never submits what the controller refuses: for every composer event,
  none of the controller's answers to the composer's \<open>onSend\<close> calls is
  \<open>Rejected\<close>. The composer's guard implies the controller's.
\<close>

theorem ui_never_rejected:
  "Rejected \<notin> set (snd (sys_step s (UiEvent e t)))"
proof (cases "\<exists>p. OnSend p \<in> set (snd (input_step (app_loading (sys_app s)) (sys_ui s) e))")
  case True
  then obtain p where p: "OnSend p \<in> set (snd (input_step (app_loading (sys_app s)) (sys_ui s) e))" by blast
  let ?q = "\<lparr>params_text = ia_text (sys_ui s), params_image = ia_selected_image (sys_ui s)\<rparr>"
  from input_step_sends [OF p]
  have effs: "snd (input_step (app_loading (sys_app s)) (sys_ui s) e) = [OnSend ?q]"
    and nl: "\<not> app_loading (sys_app s)"
    and g: "js_trim (params_text ?q) \<noteq> [] \<or> params_image ?q \<noteq> None" by auto
  have "snd (app_submit (sys_app s) ?q t) \<noteq> Rejected"
    using nl g by (rule submit_guard_accepts)
  then show ?thesis using effs
    by (auto simp: case_prod_beta split: prod.splits)
next
  case False
  then show ?thesis
    by (auto simp: case_prod_beta deliver_no_send)
qed

text \<open>
  C31. The two-phase controller refines the spec's atomic user turn: submitting to an idle
  controller emits the request \<open>build_request\<close> makes of the history and the input,
  and delivering any provider answer to it leaves, read as (role, text, image) triples,
  exactly the messages \<open>spec_turn\<close> prescribes, reports the same outcome (the reply
  text, or the failure with its cause), and returns to idle.
\<close>

theorem submit_reply_refines_spec_turn:
  assumes "\<not> app_loading s" and "\<not> (js_trim (params_text p) = [] \<and> params_image p = None)"
  shows "snd (app_step s (Submit p t)) =
           SendRequest (build_request (app_messages s) (params_text p)
                          (Option.bind (params_image p) image_base64)) \<and>
         abs_messages (fst (app_step (fst (app_step s (Submit p t))) (ModelReply r t'))) =
           fst (spec_turn (abs_messages s) p r) \<and>
         abs_output (snd (app_step (fst (app_step s (Submit p t))) (ModelReply r t'))) =
           Some (snd (spec_turn (abs_messages s) p r)) \<and>
         \<not> app_loading (fst (app_step (fst (app_step s (Submit p t))) (ModelReply r t')))"
  using assms
  by (cases r) (auto simp: app_submit_def app_reply_def abs_messages_def spec_turn_def
                           user_message_def model_message_def Let_def split: option.splits)

theorem submit_reply_refines_spec_turn_witness:
  "abs_messages (fst (app_step (fst (app_step app_init (Submit \<lparr>params_text = ''q'', params_image = None\<rparr> 1)))
      (ModelReply (ProviderFailure ''offline'') 2))) = [(User, ''q'', None)]"
proof -
  have "\<not> app_loading app_init" by (simp add: app_init_def)
  moreover have "\<not> (js_trim (params_text \<lparr>params_text = ''q'', params_image = None\<rparr>) = [] \<and>
      params_image \<lparr>params_text = ''q'', params_image = None\<rparr> = None)"
    by (simp add: js_trim_def js_whitespace_def js_line_terminator_def)
  ultimately show ?thesis
    using submit_reply_refines_spec_turn
      [of app_init "\<lparr>params_text = ''q'', params_image = None\<rparr>" 1 "ProviderFailure ''offline''" 2]
    by (simp add: spec_turn_def abs_messages_def app_init_def)
qed

text \<open>
  C32. The media type of an attachment changes between its first sending and its
  resending: an image-only submission of a codec attachment \<open>data:<t>;base64,<b>\<close>
  sends the image as \<open>image/jpeg\<close> in the new turn, while the stored message, resent
  with the history on every later turn, declares \<open>t\<close>.
\<close>

theorem attachment_media_type_on_resend:
  assumes "\<not> app_loading s" and "media_type_ok mt" and "mt \<noteq> []"
    and "CHR '','' \<notin> set b" and "b \<noteq> []"
  shows "snd (app_step s (Submit \<lparr>params_text = [], params_image = Some
             \<lparr>image_base64 = Some b, image_preview = data_url mt b, image_mime_type = mt\<rparr>\<rparr> t))
           = SendRequest (build_request (app_messages s) [] (Some b)) \<and>
         item_parts (last (req_contents (build_request (app_messages s) [] (Some b))))
           = [InlineDataPart ''image/jpeg'' (Some b)] \<and>
         item_parts (format_message (last (app_messages (fst (app_step s (Submit
             \<lparr>params_text = [], params_image = Some
               \<lparr>image_base64 = Some b, image_preview = data_url mt b, image_mime_type = mt\<rparr>\<rparr> t))))))
           = [InlineDataPart mt (Some b)]"
proof -
  have part: "image_part_of_data_url (data_url mt b) = InlineDataPart mt (Some b)"
    using assms(2,3,4) by (rule image_part_of_data_url_exact)
  show ?thesis
    using assms(1,5) part
    by (simp add: app_submit_def user_message_def build_request_def new_content_def new_parts_def
                  format_message_def)
qed

theorem attachment_media_type_on_resend_witness:
  "item_parts (last (req_contents (build_request [] [] (Some ''iVBO''))))
     = [InlineDataPart ''image/jpeg'' (Some ''iVBO'')] \<and>
   item_parts (format_message (last (app_messages (fst (app_step app_init (Submit
     \<lparr>params_text = [], params_image = Some
       \<lparr>image_base64 = Some ''iVBO'', image_preview = data_url ''image/png'' ''iVBO'',
        image_mime_type = ''image/png''\<rparr>\<rparr> 1))))))
     = [InlineDataPart ''image/png'' (Some ''iVBO'')]"
proof -
  have "\<not> app_loading app_init" by (simp add: app_init_def)
  moreover have "media_type_ok ''image/png''"
    by (simp add: media_type_ok_def regex_group_clean_def js_line_terminator_def)
  ultimately show ?thesis
    using attachment_media_type_on_resend [of app_init "''image/png''" "''iVBO''" 1]
    by (simp add: app_init_def)
qed

text \<open>
  C33. A zero-byte image file passes both guards and yields a turn with no parts: from any
  idle front end with an empty text box, choosing an image file whose read gives the data
  URL with an empty payload and clicking send sends a request whose new user turn has no
  part at all, while the store gains a user message holding that data URL.
\<close>

theorem zero_byte_image_empty_turn:
  assumes "\<not> app_loading (sys_app s)" and "pending_ok (sys_ui s)" and "ia_text (sys_ui s) = []"
    and "js_starts_with (file_type f) ''image/''" and "CHR '','' \<notin> set (file_type f)"
  shows "\<exists>req. snd (sys_run s [UiEvent (FileChange (Some f)) t1,
              UiEvent (ReadLoad (ia_next_read (sys_ui s)) (data_url (file_type f) [])) t2,
              UiEvent ClickSend t3]) = [SendRequest req] \<and>
           item_parts (last (req_contents req)) = [] \<and>
           app_messages (sys_app (fst (sys_run s [UiEvent (FileChange (Some f)) t1,
              UiEvent (ReadLoad (ia_next_read (sys_ui s)) (data_url (file_type f) [])) t2,
              UiEvent ClickSend t3]))) =
             app_messages (sys_app s) @
               [\<lparr>message_id = dec_string (app_next_id (sys_app s)), message_role = User,
                 message_text = [], message_image = Some (data_url (file_type f) []),
                 message_timestamp = t3\<rparr>]"
proof -
  have hd: "CHR '','' \<notin> set (''data:'' @ file_type f @ '';base64'')" using assms(5) by simp
  have "data_url (file_type f) [] = (''data:'' @ file_type f @ '';base64'') @ CHR '','' # []"
    by (simp add: data_url_def)
  then have segs: "js_split CHR '','' (data_url (file_type f) []) = [''data:'' @ file_type f @ '';base64'', []]"
    by (simp only: js_split_append_sep [OF hd] js_split.simps(1))
  show ?thesis
    using attach_then_send [OF assms(1-4), of t1 "data_url (file_type f) []" t2 t3] assms(1)
    by (simp add: segs js_index_def build_request_def new_content_def new_parts_def
                  app_submit_def user_message_def)
qed

theorem zero_byte_image_empty_turn_witness:
  "\<exists>req. snd (sys_run sys_init [UiEvent (FileChange (Some \<lparr>file_type = ''image/png''\<rparr>)) 1,
      UiEvent (ReadLoad 0 (data_url ''image/png'' [])) 2, UiEvent ClickSend 3]) = [SendRequest req] \<and>
     item_parts (last (req_contents req)) = []"
proof -
  have "\<not> app_loading (sys_app sys_init)" "ia_text (sys_ui sys_init) = []"
    by (simp_all add: sys_init_def app_init_def input_init_def)
  moreover have "pending_ok (sys_ui sys_init)" by (simp add: sys_init_def pending_ok_init)
  moreover have "js_starts_with (file_type \<lparr>file_type = ''image/png''\<rparr>) ''image/''"
    "CHR '','' \<notin> set (file_type \<lparr>file_type = ''image/png''\<rparr>)"
    by (simp_all add: js_starts_with_def)
  moreover have nr: "ia_next_read (sys_ui sys_init) = 0" by (simp add: sys_init_def input_init_def)
  ultimately show ?thesis
    using zero_byte_image_empty_turn [of sys_init "\<lparr>file_type = ''image/png''\<rparr>" 1 2 3]
    unfolding nr file_info.select_convs by blast
qed

text \<open>
  C34. The image scenario of spec section 8, for every image file and payload: from any
  idle front end with an empty text box, attaching an image file and sending sends a new
  turn with a single inline part and no text part. The part is declared
  \<open>image/jpeg\<close>, whatever the file's type; the stored message, resent with every later
  turn, declares the file's type.
\<close>

theorem image_only_scenario:
  assumes "\<not> app_loading (sys_app s)" and "pending_ok (sys_ui s)" and "ia_text (sys_ui s) = []"
    and "js_starts_with (file_type f) ''image/''" and "media_type_ok (file_type f)"
    and "CHR '','' \<notin> set b" and "b \<noteq> []"
  shows "\<exists>req. snd (sys_run s [UiEvent (FileChange (Some f)) t1,
              UiEvent (ReadLoad (ia_next_read (sys_ui s)) (data_url (file_type f) b)) t2,
              UiEvent ClickSend t3]) = [SendRequest req] \<and>
           item_parts (last (req_contents req)) = [InlineDataPart ''image/jpeg'' (Some b)] \<and>
           item_parts (format_message (last (app_messages (sys_app (fst (sys_run s
             [UiEvent (FileChange (Some f)) t1,
              UiEvent (ReadLoad (ia_next_read (sys_ui s)) (data_url (file_type f) b)) t2,
              UiEvent ClickSend t3])))))) = [InlineDataPart (file_type f) (Some b)]"
proof -
  have ne: "file_type f \<noteq> []" using assms(4) by (auto simp: js_starts_with_def)
  have segs: "js_split CHR '','' (data_url (file_type f) b) = [''data:'' @ file_type f @ '';base64'', b]"
    using assms(5,6) by (rule data_url_split)
  have part: "image_part_of_data_url (data_url (file_type f) b) = InlineDataPart (file_type f) (Some b)"
    using assms(5) ne assms(6) by (rule image_part_of_data_url_exact)
  show ?thesis
    using attach_then_send [OF assms(1-4), of t1 "data_url (file_type f) b" t2 t3] assms(1,7) part
    by (simp add: segs js_index_def build_request_def new_content_def new_parts_def
                  app_submit_def user_message_def format_message_def)
qed

theorem image_only_scenario_witness:
  "\<exists>req. snd (sys_run sys_init [UiEvent (FileChange (Some \<lparr>file_type = ''image/png''\<rparr>)) 1,
      UiEvent (ReadLoad 0 (data_url ''image/png'' ''iVBO'')) 2, UiEvent ClickSend 3]) = [SendRequest req] \<and>
     item_parts (last (req_contents req)) = [InlineDataPart ''image/jpeg'' (Some ''iVBO'')]"
proof -
  have "\<not> app_loading (sys_app sys_init)" "ia_text (sys_ui sys_init) = []"
    by (simp_all add: sys_init_def app_init_def input_init_def)
  moreover have "pending_ok (sys_ui sys_init)" by (simp add: sys_init_def pending_ok_init)
  moreover have "js_starts_with (file_type \<lparr>file_type = ''image/png''\<rparr>) ''image/''"
    by (simp add: js_starts_with_def)
  moreover have "media_type_ok (file_type \<lparr>file_type = ''image/png''\<rparr>)"
    by (simp add: media_type_ok_def regex_group_clean_def js_line_terminator_def)
  moreover have nr: "ia_next_read (sys_ui sys_init) = 0" by (simp add: sys_init_def input_init_def)
  moreover have "CHR '','' \<notin> set ''iVBO''" "''iVBO'' \<noteq> []" by simp_all
  ultimately show ?thesis
    using image_only_scenario [of sys_init "\<lparr>file_type = ''image/png''\<rparr>" "''iVBO''" 1 2 3]
    unfolding nr file_info.select_convs by blast
qed

subsection \<open>Reachable states of the whole front end\<close>

lemma deliver_reachable:
  "app_reachable a \<Longrightarrow> app_clock a \<le> t \<Longrightarrow>
     app_reachable (fst (deliver a t effs)) \<and> app_clock (fst (deliver a t effs)) \<le> t"
proof (induction a t effs rule: deliver.induct)
  case (2 a t p es)
  have r: "app_reachable (fst (app_step a (Submit p t)))"
    by (rule app_reachable.step) (simp_all add: "2.prems")
  have c: "app_clock (fst (app_submit a p t)) \<le> t"
    using "2.prems" by (simp add: app_submit_def)
  have r': "app_reachable (fst (app_submit a p t))" using r by simp
  from "2.IH" [OF refl prod.collapse r' c] show ?case by (simp add: case_prod_beta)
qed simp_all

lemma sys_reachable_inv:
  "sys_reachable s \<Longrightarrow> pending_ok (sys_ui s) \<and> app_reachable (sys_app s)"
proof (induction rule: sys_reachable.induct)
  case init
  show ?case by (simp add: sys_init_def pending_ok_init app_reachable.init)
next
  case (step s e)
  show ?case
  proof (cases e)
    case (UiEvent ev t)
    with step have "app_reachable (fst (deliver (sys_app s) t
        (snd (input_step (app_loading (sys_app s)) (sys_ui s) ev))))"
      using deliver_reachable by simp
    with step UiEvent show ?thesis by (simp only: sys_step_ui) (simp add: pending_ok_step)
  next
    case (ProviderEvent r t)
    have clk: "app_clock (sys_app s) \<le> t" using step.hyps(2) ProviderEvent by simp
    have r: "app_reachable (fst (app_step (sys_app s) (ModelReply r t)))"
      by (rule app_reachable.step) (simp_all add: step.IH clk)
    have "fst (sys_step s e) = s\<lparr>sys_app := fst (app_step (sys_app s) (ModelReply r t))\<rparr>"
      using ProviderEvent by (simp add: case_prod_beta)
    with step r show ?thesis by simp
  qed
qed

lemma app_reply_idle: "\<not> app_loading (fst (app_reply a r t))"
  by (auto simp: app_reply_def split: sum.splits)

lemma click_send_idle:
  assumes "\<not> app_loading (sys_app s)" and "js_trim (ia_text (sys_ui s)) \<noteq> []"
  shows "\<exists>req. snd (sys_step s (UiEvent ClickSend t)) = [SendRequest req]"
  using assms by (simp add: handleSend_def app_submit_def)

text \<open>
  C40. The front end never deadlocks: from every reachable state, whatever the provider
  answers, delivering the answer leads to a reachable state that is idle and satisfies
  both components' invariants, and in which a non-blank text in the composer is sent
  by one click and accepted by the controller.
\<close>

theorem sys_progress:
  assumes "sys_reachable s" and "app_clock (sys_app s) \<le> t"
  shows "sys_reachable (fst (sys_step s (ProviderEvent r t))) \<and>
         \<not> app_loading (sys_app (fst (sys_step s (ProviderEvent r t)))) \<and>
         pending_ok (sys_ui (fst (sys_step s (ProviderEvent r t)))) \<and>
         app_inv (sys_app (fst (sys_step s (ProviderEvent r t)))) \<and>
         (js_trim (ia_text (sys_ui s)) \<noteq> [] \<longrightarrow>
            (\<exists>req. snd (sys_step (fst (sys_step s (ProviderEvent r t))) (UiEvent ClickSend t))
                    = [SendRequest req]))"
proof -
  let ?s' = "fst (sys_step s (ProviderEvent r t))"
  have reach: "sys_reachable ?s'"
    using assms by (intro sys_reachable.step) simp_all
  have idle: "\<not> app_loading (sys_app ?s')"
    by (simp add: case_prod_beta app_reply_idle)
  have inv: "pending_ok (sys_ui ?s') \<and> app_reachable (sys_app ?s')"
    using reach by (rule sys_reachable_inv)
  have ui: "sys_ui ?s' = sys_ui s" by (simp add: case_prod_beta)
  show ?thesis
    using reach idle inv ui app_reachable_inv click_send_idle [OF idle] by auto
qed

theorem sys_progress_witness:
  "\<not> app_loading (sys_app (fst (sys_step sys_init (ProviderEvent (ProviderFailure ''offline'') 0)))) \<and>
   app_inv (sys_app (fst (sys_step sys_init (ProviderEvent (ProviderFailure ''offline'') 0))))"
proof -
  have "sys_reachable sys_init" by (rule sys_reachable.init)
  moreover have "app_clock (sys_app sys_init) \<le> 0" by (simp add: sys_init_def app_init_def)
  ultimately show ?thesis using sys_progress by blast
qed

end
